(* ===== verification/Prelude.thy ===== *)
theory Prelude
  imports Main "HOL-Library.Word" "HOL-Library.Multiset"
begin

text \<open>
  Shared vocabulary of the development. The puzzle solvers under \<open>src/day_NN/src/main.rs\<close>
  call a handful of Rust standard-library routines on the embedded input text; they are
  not code of the repository, so they are modelled here from their documented behaviour:
  \<^item> \<open>str::lines\<close> as \<open>rs_lines\<close> (split at LF, strip one CR before each LF, no empty
    line after a final LF);
  \<^item> \<open>str::split(char)\<close> as \<open>split_on\<close> (always at least one piece);
  \<^item> \<open>str::split_whitespace\<close> as \<open>split_whitespace\<close> (ASCII whitespace, no empty words);
  \<^item> \<open>str::parse::<u64>\<close> as \<open>parse_u64\<close> (optional \<open>+\<close>, decimal digits, value below
    \<open>2^64\<close>, \<open>None\<close> for the \<open>ParseIntError\<close>).
  Strings are \<open>char list\<close>; a \<open>char\<close> of HOL is a byte, which matches the ASCII inputs of
  the puzzles. The type \<open>rs_error\<close> names the ways a solver aborts: a \<open>Result\<close> error
  propagated with \<open>?\<close>, a panic of \<open>unwrap\<close>, an index out of range, an arithmetic
  overflow, a failed \<open>TryFrom\<close> conversion (\<open>ConversionError\<close>). A fallible routine of
  the model returns \<open>rs_error + 'a\<close>.
\<close>

named_theorems rs_string_simps "evaluation rules for the modelled string routines"

datatype rs_error = ParseIntError | UnwrapNone | IndexOutOfBounds | ArithOverflow | ExplicitPanic | ConversionError

type_synonym u64 = nat

definition nl :: char where "nl = CHR 0x0A"
definition cr :: char where "cr = CHR 0x0D"

subsection \<open>\<open>str::split\<close> on one character\<close>

fun split_on :: "char \<Rightarrow> string \<Rightarrow> string list" where
  "split_on c [] = [[]]"
| "split_on c (x # xs) =
     (let ps = split_on c xs in if x = c then [] # ps else (x # hd ps) # tl ps)"

subsection \<open>\<open>str::lines\<close>\<close>

definition strip_cr :: "string \<Rightarrow> string" where
  "strip_cr s = (if s \<noteq> [] \<and> last s = cr then butlast s else s)"

definition rs_lines :: "string \<Rightarrow> string list" where
  "rs_lines s =
     (let ps = split_on nl s
      in map strip_cr (butlast ps) @ (if last ps = [] then [] else [last ps]))"

definition unlines :: "string list \<Rightarrow> string" where
  "unlines ls = concat (map (\<lambda>l. l @ [nl]) ls)"

definition plain_line :: "string \<Rightarrow> bool" where
  "plain_line l \<longleftrightarrow> nl \<notin> set l \<and> (l = [] \<or> last l \<noteq> cr)"

subsection \<open>\<open>str::split_whitespace\<close>\<close>

definition is_ws :: "char \<Rightarrow> bool" where
  "is_ws c \<longleftrightarrow> c \<in> {CHR '' '', CHR 0x09, CHR 0x0A, CHR 0x0B, CHR 0x0C, CHR 0x0D}"

fun words_from :: "string \<Rightarrow> string \<Rightarrow> string list" where
  "words_from acc [] = (if acc = [] then [] else [rev acc])"
| "words_from acc (c # cs) =
     (if is_ws c then (if acc = [] then words_from [] cs else rev acc # words_from [] cs)
      else words_from (c # acc) cs)"

definition split_whitespace :: "string \<Rightarrow> string list" where
  "split_whitespace s = words_from [] s"

fun unwords :: "string list \<Rightarrow> string" where
  "unwords [] = []"
| "unwords [w] = w"
| "unwords (w # ws) = w @ CHR '' '' # unwords ws"

definition word_ok :: "string \<Rightarrow> bool" where
  "word_ok w \<longleftrightarrow> w \<noteq> [] \<and> (\<forall>c\<in>set w. \<not> is_ws c)"

subsection \<open>\<open>str::parse::<u64>\<close> and decimal printing\<close>

definition is_digit :: "char \<Rightarrow> bool" where
  "is_digit c \<longleftrightarrow> 48 \<le> (of_char c :: nat) \<and> (of_char c :: nat) \<le> 57"

definition digit_val :: "char \<Rightarrow> nat" where
  "digit_val c = of_char c - 48"

fun digits_value :: "nat \<Rightarrow> string \<Rightarrow> nat option" where
  "digits_value acc [] = Some acc"
| "digits_value acc (c # cs) =
     (if is_digit c then digits_value (10 * acc + digit_val c) cs else None)"

definition parse_u64 :: "string \<Rightarrow> u64 option" where
  "parse_u64 s =
     (let ds = (if s \<noteq> [] \<and> hd s = CHR ''+'' then tl s else s)
      in if ds = [] then None
         else (case digits_value 0 ds of
                 None \<Rightarrow> None
               | Some n \<Rightarrow> if n < 2 ^ 64 then Some n else None))"

definition parse_u32 :: "string \<Rightarrow> nat option" where
  "parse_u32 s = (case parse_u64 s of None \<Rightarrow> None | Some n \<Rightarrow> if n < 2 ^ 32 then Some n else None)"

definition parse_u32_r :: "string \<Rightarrow> rs_error + nat" where
  "parse_u32_r s = (case parse_u32 s of None \<Rightarrow> Inl ParseIntError | Some n \<Rightarrow> Inr n)"

definition parse_u64_r :: "string \<Rightarrow> rs_error + u64" where
  "parse_u64_r s = (case parse_u64 s of None \<Rightarrow> Inl ParseIntError | Some n \<Rightarrow> Inr n)"

definition digit_char :: "nat \<Rightarrow> char" where
  "digit_char d = char_of (48 + d)"

fun show_nat :: "nat \<Rightarrow> string" where
  "show_nat n = (if n < 10 then [digit_char n] else show_nat (n div 10) @ [digit_char (n mod 10)])"

declare show_nat.simps [simp del]

subsection \<open>Propagating errors: the \<open>?\<close> operator\<close>

definition rs_bind :: "'e + 'a \<Rightarrow> ('a \<Rightarrow> 'e + 'b) \<Rightarrow> 'e + 'b" where
  "rs_bind r f = (case r of Inl e \<Rightarrow> Inl e | Inr a \<Rightarrow> f a)"

subsection \<open>Iterators\<close>

text \<open>The \<open>i\<close>-th call of \<open>next().unwrap()\<close> on a fused iterator over a list: it
  panics once the list is exhausted.\<close>

definition nth_unwrap :: "'a list \<Rightarrow> nat \<Rightarrow> rs_error + 'a" where
  "nth_unwrap xs i = (if i < length xs then Inr (xs ! i) else Inl UnwrapNone)"

text \<open>\<open>iter.map(f).collect_tuple::<(_, _)>().unwrap()\<close> of \<open>itertools\<close>: two calls of
  \<open>next\<close> for the pair, then one more that must find the iterator exhausted; \<open>f\<close> runs
  on every element \<open>next\<close> returns, so its panic comes first.\<close>

definition collect_pair :: "('a \<Rightarrow> rs_error + 'b) \<Rightarrow> 'a list \<Rightarrow> rs_error + ('b \<times> 'b)" where
  "collect_pair f xs =
     (case xs of
        [] \<Rightarrow> Inl UnwrapNone
      | [a] \<Rightarrow> rs_bind (f a) (\<lambda>_. Inl UnwrapNone)
      | a # b # rest \<Rightarrow>
          rs_bind (f a) (\<lambda>x. rs_bind (f b) (\<lambda>y.
            (case rest of [] \<Rightarrow> Inr (x, y) | c # _ \<Rightarrow> rs_bind (f c) (\<lambda>_. Inl UnwrapNone)))))"

subsection \<open>\<open>str::split\<close> on a two-character pattern\<close>

fun split_on_pair :: "char \<Rightarrow> char \<Rightarrow> string \<Rightarrow> string list" where
  "split_on_pair a b [] = [[]]"
| "split_on_pair a b [x] = [[x]]"
| "split_on_pair a b (x # y # zs) =
     (if x = a \<and> y = b then [] # split_on_pair a b zs
      else (let ps = split_on_pair a b (y # zs) in (x # hd ps) # tl ps))"

subsection \<open>\<open>char::is_alphabetic\<close> on ASCII\<close>

definition is_alphabetic :: "char \<Rightarrow> bool" where
  "is_alphabetic c \<longleftrightarrow>
     (65 \<le> (of_char c :: nat) \<and> (of_char c :: nat) \<le> 90) \<or> (97 \<le> (of_char c :: nat) \<and> (of_char c :: nat) \<le> 122)"

subsection \<open>The two \<open>nom\<close> primitives the crate parser uses\<close>

text \<open>A \<open>nom\<close> parser on \<open>&str\<close> is a function from the input to the value and the rest of
  the input, or an error; \<open>None\<close> is \<open>nom::Err::Error\<close> (the complete parsers used by the
  source never return \<open>Incomplete\<close> or \<open>Failure\<close>).\<close>

type_synonym 'a parser = "string \<Rightarrow> ('a \<times> string) option"

definition tag :: "string \<Rightarrow> string parser" where
  "tag t s = (if take (length t) s = t then Some (t, drop (length t) s) else None)"

definition take_one :: "string parser" where
  "take_one s = (case s of [] \<Rightarrow> None | c # r \<Rightarrow> Some ([c], r))"

subsection \<open>Lemmas on the string routines\<close>

lemma rs_bind_simps [simp]:
  "rs_bind (Inl e) f = Inl e"
  "rs_bind (Inr a) f = f a"
  by (simp_all add: rs_bind_def)

lemma rs_bind_eq_Inr: "rs_bind r f = Inr b \<longleftrightarrow> (\<exists>a. r = Inr a \<and> f a = Inr b)"
  by (cases r) auto

lemma tag_Some [rs_string_simps]: "tag t (t @ s) = Some (t, s)"
  by (simp add: tag_def)

lemma tag_eq_Some: "tag t s = Some (v, r) \<longleftrightarrow> v = t \<and> s = t @ r"
proof
  assume "tag t s = Some (v, r)"
  then have "take (length t) s = t" and "v = t" and "r = drop (length t) s"
    by (auto simp: tag_def split: if_splits)
  then show "v = t \<and> s = t @ r" by (metis append_take_drop_id)
qed (simp add: tag_def)

lemma take_one_eq_Some: "take_one s = Some (v, r) \<longleftrightarrow> (\<exists>c. v = [c] \<and> s = c # r)"
  by (auto simp: take_one_def split: list.splits)

lemma tag_consumes: "tag t s = Some (v, s') \<Longrightarrow> length s' = length s - length t \<and> length t \<le> length s"
  by (auto simp: tag_def split: if_splits dest: arg_cong [of _ _ length])

lemma take_one_consumes: "take_one s = Some (v, s') \<Longrightarrow> length s' < length s"
  by (auto simp: take_one_def split: list.splits)

lemma digit_not_alphabetic [simp]: "is_digit c \<Longrightarrow> \<not> is_alphabetic c"
  by (auto simp: is_digit_def is_alphabetic_def)

lemma mset_concat_update:
  "i < length xs \<Longrightarrow> mset (concat (xs[i := v])) + mset (xs ! i) = mset (concat xs) + mset v"
proof -
  assume i: "i < length xs"
  have "concat xs = concat (take i xs @ xs ! i # drop (Suc i) xs)"
    using arg_cong [of _ _ concat, OF id_take_nth_drop [OF i]] .
  then have whole: "mset (concat xs) = mset (concat (take i xs)) + mset (xs ! i) + mset (concat (drop (Suc i) xs))"
    by simp
  have upd: "mset (concat (xs[i := v])) = mset (concat (take i xs)) + mset v + mset (concat (drop (Suc i) xs))"
    by (simp add: upd_conv_take_nth_drop [OF i])
  show ?thesis by (simp add: whole upd ac_simps)
qed

lemmas parse_eval_simps = parse_u64_r_def parse_u64_def is_digit_def digit_val_def
  split_whitespace_def is_ws_def parse_u32_def parse_u32_r_def nth_unwrap_def

lemma words_from_append_word:
  "\<forall>c\<in>set w. \<not> is_ws c \<Longrightarrow> words_from acc (w @ rest) = words_from (rev w @ acc) rest"
  by (induction w arbitrary: acc) auto

lemma words_from_unwords:
  "\<forall>w\<in>set ws. word_ok w \<Longrightarrow> words_from [] (unwords ws) = ws"
proof (induction ws rule: unwords.induct)
  case (2 w)
  then show ?case
    using words_from_append_word [of w "[]" "[]"] by (auto simp: word_ok_def)
next
  case (3 w v vs)
  then have w: "word_ok w" by simp
  have sp: "is_ws CHR '' ''" by (simp add: is_ws_def)
  from w have "words_from [] (w @ CHR '' '' # unwords (v # vs)) = words_from (rev w) (CHR '' '' # unwords (v # vs))"
    using words_from_append_word [of w "[]"] by (simp add: word_ok_def)
  also have "\<dots> = w # words_from [] (unwords (v # vs))"
    using w sp by (simp add: word_ok_def)
  finally show ?case using 3 by simp
qed simp

theorem split_whitespace_unwords [rs_string_simps]:
  "\<forall>w\<in>set ws. word_ok w \<Longrightarrow> split_whitespace (unwords ws) = ws"
  by (simp add: split_whitespace_def words_from_unwords)

lemma split_on_nonempty [simp]: "split_on c s \<noteq> []"
  by (induction s) (auto simp: Let_def)

lemma split_on_append_sep:
  "c \<notin> set xs \<Longrightarrow> split_on c (xs @ c # ys) = xs # split_on c ys"
  by (induction xs) (auto simp: Let_def)

lemma split_on_no_sep:
  "c \<notin> set xs \<Longrightarrow> split_on c xs = [xs]"
  by (induction xs) (auto simp: Let_def)

lemma split_on_unlines: "\<forall>l\<in>set ls. nl \<notin> set l \<Longrightarrow> split_on nl (unlines ls) = ls @ [[]]"
  by (induction ls) (auto simp: unlines_def split_on_append_sep)

lemma strip_cr_plain [simp]: "plain_line l \<Longrightarrow> strip_cr l = l"
  by (auto simp: strip_cr_def plain_line_def)

theorem rs_lines_unlines [rs_string_simps]:
  assumes "\<forall>l\<in>set ls. plain_line l"
  shows "rs_lines (unlines ls) = ls"
proof -
  from assms have "\<forall>l\<in>set ls. nl \<notin> set l" by (auto simp: plain_line_def)
  then have "split_on nl (unlines ls) = ls @ [[]]" by (rule split_on_unlines)
  moreover from assms have "map strip_cr ls = ls" by (induction ls) auto
  ultimately show ?thesis by (simp add: rs_lines_def)
qed

lemma digits_value_append:
  "digits_value acc (xs @ ys) = (case digits_value acc xs of None \<Rightarrow> None | Some a \<Rightarrow> digits_value a ys)"
  by (induction acc xs rule: digits_value.induct) auto

lemma digit_char_is_digit [simp]: "d < 10 \<Longrightarrow> is_digit (digit_char d)"
  by (simp add: is_digit_def digit_char_def)

lemma digit_val_digit_char [simp]: "d < 10 \<Longrightarrow> digit_val (digit_char d) = d"
  by (simp add: digit_val_def digit_char_def)

lemma digits_value_show_nat: "digits_value 0 (show_nat n) = Some n"
proof (induction n rule: show_nat.induct)
  case (1 n)
  show ?case
  proof (cases "n < 10")
    case True
    then show ?thesis by (simp add: show_nat.simps [of n])
  next
    case False
    with "1.IH" have "digits_value 0 (show_nat (n div 10)) = Some (n div 10)" by simp
    with False show ?thesis by (simp add: show_nat.simps [of n] digits_value_append)
  qed
qed

lemma show_nat_digits: "c \<in> set (show_nat n) \<Longrightarrow> is_digit c"
proof (induction n rule: show_nat.induct)
  case (1 n)
  then show ?case by (cases "n < 10") (auto simp: show_nat.simps [of n])
qed

lemma show_nat_nonempty [simp]: "show_nat n \<noteq> []"
  by (simp add: show_nat.simps [of n])

lemma plus_not_digit [simp]: "\<not> is_digit CHR ''+''"
  by (simp add: is_digit_def)

theorem parse_u64_show_nat [rs_string_simps]: "n < 2 ^ 64 \<Longrightarrow> parse_u64 (show_nat n) = Some n"
proof -
  assume n: "n < 2 ^ 64"
  have "hd (show_nat n) \<noteq> CHR ''+''"
    using show_nat_digits [of "hd (show_nat n)" n] by (metis hd_in_set plus_not_digit show_nat_nonempty)
  with n show ?thesis by (simp add: parse_u64_def digits_value_show_nat)
qed

lemma word_ok_show_nat [simp]: "word_ok (show_nat n)"
proof -
  have "\<And>c. is_digit c \<Longrightarrow> \<not> is_ws c" by (auto simp: is_digit_def is_ws_def)
  then show ?thesis using show_nat_digits by (auto simp: word_ok_def)
qed

lemma not_digit_show_nat: "\<not> is_digit c \<Longrightarrow> c \<notin> set (show_nat n)"
  using show_nat_digits by blast

lemma parse_u32_show_nat [rs_string_simps]: "n < 2 ^ 32 \<Longrightarrow> parse_u32 (show_nat n) = Some n"
  by (simp add: parse_u32_def parse_u64_show_nat)

end
