(* ===== verification/Day05_Grid.thy ===== *)
theory Day05_Grid
  imports Prelude
begin

text \<open>
  The crate-row parser of day 5 (\<open>src/day_05/src/main.rs\<close>, the top-level \<open>main\<close> and the
  \<open>nom\<close> parsers above it). A row of the drawing is a sequence of three-character cells
  separated by one space; a cell is a crate \<open>[X]\<close> or a hole of three spaces. The parsers
  are \<open>'a parser\<close> functions; the loop of \<open>parse_crate_line\<close> is a recursive function whose
  termination rests on every iteration consuming input. The lemmas show that printing a row
  of slots and parsing it back gives the slots (so a row of \<open>N\<close> cells gives \<open>N\<close> slots),
  and that \<open>main\<close> keeps exactly the rows that parse, dropping the others.
\<close>

datatype crate = Crate char

definition parse_crate :: "crate parser" where
  "parse_crate s =
     (case tag ''['' s of
        None \<Rightarrow> None
      | Some (_, s1) \<Rightarrow>
          (case take_one s1 of
             None \<Rightarrow> None
           | Some (x, s2) \<Rightarrow>
               (case tag '']'' s2 of
                  None \<Rightarrow> None
                | Some (_, s3) \<Rightarrow> Some (Crate (hd x), s3))))"

definition parse_hole :: "unit parser" where
  "parse_hole s = (case tag ''   '' s of None \<Rightarrow> None | Some (_, r) \<Rightarrow> Some ((), r))"

definition parse_crate_or_hole :: "crate option parser" where
  "parse_crate_or_hole s =
     (case parse_crate s of
        Some (c, r) \<Rightarrow> Some (Some c, r)
      | None \<Rightarrow> (case parse_hole s of Some (_, r) \<Rightarrow> Some (None, r) | None \<Rightarrow> None))"

text \<open>\<open>preceded(tag(" "), parse_crate_or_hole)\<close>, the parser the loop wraps in \<open>opt\<close>.\<close>

definition parse_next_slot :: "crate option parser" where
  "parse_next_slot s = (case tag '' '' s of None \<Rightarrow> None | Some (_, r) \<Rightarrow> parse_crate_or_hole r)"

lemma parse_crate_consumes: "parse_crate s = Some (c, r) \<Longrightarrow> length r < length s"
  by (auto simp: parse_crate_def split: option.splits prod.splits
           dest!: tag_consumes take_one_consumes)

lemma parse_crate_or_hole_consumes: "parse_crate_or_hole s = Some (c, r) \<Longrightarrow> length r < length s"
  by (auto simp: parse_crate_or_hole_def parse_hole_def split: option.splits prod.splits
           dest!: parse_crate_consumes tag_consumes)

lemma parse_next_slot_consumes: "parse_next_slot s = Some (c, r) \<Longrightarrow> length r < length s"
  by (auto simp: parse_next_slot_def split: option.splits prod.splits
           dest!: parse_crate_or_hole_consumes tag_consumes)

text \<open>The \<open>loop\<close> of \<open>parse_crate_line\<close>: push the slot and go on while the optional
  parser succeeds, stop (without consuming) when it fails.\<close>

function crate_line_loop :: "crate option list \<Rightarrow> string \<Rightarrow> crate option list \<times> string" where
  "crate_line_loop acc tail =
     (case parse_next_slot tail of
        None \<Rightarrow> (acc, tail)
      | Some (c, next_i) \<Rightarrow> crate_line_loop (acc @ [c]) next_i)"
  by pat_completeness auto
termination
  by (relation "measure (\<lambda>(acc, tail). length tail)") (auto dest: parse_next_slot_consumes)

declare crate_line_loop.simps [simp del]

definition parse_crate_line :: "crate option list parser" where
  "parse_crate_line input =
     (case parse_crate_or_hole input of
        None \<Rightarrow> None
      | Some (c, tail) \<Rightarrow> Some (crate_line_loop [c] tail))"

definition all_consuming :: "'a parser \<Rightarrow> string \<Rightarrow> 'a option" where
  "all_consuming p s = (case p s of None \<Rightarrow> None | Some (x, r) \<Rightarrow> if r = [] then Some x else None)"

text \<open>\<open>main\<close>: the rows of the input that parse completely, in input order.\<close>

definition crate_lines :: "string \<Rightarrow> crate option list list" where
  "crate_lines input =
     concat (map (\<lambda>line. case all_consuming parse_crate_line line of None \<Rightarrow> [] | Some cs \<Rightarrow> [cs])
                 (rs_lines input))"

subsection \<open>Printing a row\<close>

fun render_slot :: "crate option \<Rightarrow> string" where
  "render_slot None = ''   ''"
| "render_slot (Some (Crate c)) = [CHR ''['', c, CHR '']'']"

fun render_row :: "crate option list \<Rightarrow> string" where
  "render_row [] = []"
| "render_row (x # xs) = render_slot x @ concat (map (\<lambda>y. CHR '' '' # render_slot y) xs)"

subsection \<open>Lemmas\<close>

lemma parse_crate_or_hole_render [simp]: "parse_crate_or_hole (render_slot x @ s) = Some (x, s)"
proof (cases x)
  case None
  then show ?thesis
    by (simp add: parse_crate_or_hole_def parse_crate_def parse_hole_def tag_def)
next
  case (Some c)
  then show ?thesis
    by (cases c) (simp add: parse_crate_or_hole_def parse_crate_def tag_def take_one_def)
qed

lemma parse_next_slot_render [simp]: "parse_next_slot (CHR '' '' # render_slot x @ s) = Some (x, s)"
  by (simp add: parse_next_slot_def tag_def)

lemma parse_next_slot_Nil [simp]: "parse_next_slot [] = None"
  by (simp add: parse_next_slot_def tag_def)

lemma crate_line_loop_render:
  "crate_line_loop acc (concat (map (\<lambda>y. CHR '' '' # render_slot y) xs)) = (acc @ xs, [])"
proof (induction xs arbitrary: acc)
  case Nil
  show ?case by (simp add: crate_line_loop.simps)
next
  case (Cons x xs)
  then show ?case by (simp add: crate_line_loop.simps [of acc])
qed

lemma parse_crate_or_hole_shape: "parse_crate_or_hole s = Some (x, r) \<Longrightarrow> s = render_slot x @ r"
  by (auto simp: parse_crate_or_hole_def parse_crate_def parse_hole_def tag_eq_Some take_one_eq_Some
           split: option.splits prod.splits)

lemma parse_next_slot_shape: "parse_next_slot s = Some (x, r) \<Longrightarrow> s = CHR '' '' # render_slot x @ r"
  by (auto simp: parse_next_slot_def tag_eq_Some split: option.splits dest!: parse_crate_or_hole_shape)

lemma crate_line_loop_shape:
  "crate_line_loop acc t = (ys, r) \<Longrightarrow>
     \<exists>zs. ys = acc @ zs \<and> t = concat (map (\<lambda>y. CHR '' '' # render_slot y) zs) @ r"
proof (induction acc t arbitrary: ys rule: crate_line_loop.induct)
  case (1 acc tail)
  show ?case
  proof (cases "parse_next_slot tail")
    case None
    with "1.prems" show ?thesis by (simp add: crate_line_loop.simps [of acc tail])
  next
    case (Some a)
    obtain c next_i where a: "a = (c, next_i)" by (cases a)
    with Some "1.prems" have "crate_line_loop (acc @ [c]) next_i = (ys, r)"
      by (simp add: crate_line_loop.simps [of acc tail])
    with "1.IH" [OF Some [unfolded a]] obtain zs where
      "ys = (acc @ [c]) @ zs" and "next_i = concat (map (\<lambda>y. CHR '' '' # render_slot y) zs) @ r"
      by blast
    moreover from Some a have "tail = CHR '' '' # render_slot c @ next_i"
      by (simp add: parse_next_slot_shape)
    ultimately show ?thesis by (intro exI [of _ "c # zs"]) simp
  qed
qed

lemma length_render_slot [simp]: "length (render_slot x) = 3"
  by (cases x rule: render_slot.cases) simp_all

lemma nl_in_render_slot: "nl \<in> set (render_slot y) \<Longrightarrow> y = Some (Crate nl)"
  by (cases y rule: render_slot.cases) (auto simp: nl_def)

lemma length_sep_slots [simp]:
  "length (concat (map (\<lambda>y. CHR '' '' # render_slot y) xs)) = 4 * length xs"
  by (induction xs) auto

lemma render_row_Cons_length:
  "length (render_row (x # xs)) = 3 + 4 * length xs"
  by simp

lemma render_row_no_nl:
  "(\<forall>c. Some (Crate c) \<in> set xs \<longrightarrow> c \<noteq> nl) \<Longrightarrow> nl \<notin> set (render_row xs)"
  by (cases xs) (auto dest!: nl_in_render_slot, simp add: nl_def)

lemma render_row_last:
  "xs \<noteq> [] \<Longrightarrow> last (render_row xs) \<in> {CHR '']'', CHR '' ''}"
proof (induction xs rule: rev_induct)
  case (snoc x xs)
  show ?case
    by (cases xs; cases x; cases "the x") (auto simp: last_append)
qed simp

lemma render_row_plain:
  "xs \<noteq> [] \<Longrightarrow> (\<forall>c. Some (Crate c) \<in> set xs \<longrightarrow> c \<noteq> nl) \<Longrightarrow> plain_line (render_row xs)"
  using render_row_last [of xs] render_row_no_nl [of xs] by (auto simp: plain_line_def cr_def)

lemma parse_crate_line_render: "xs \<noteq> [] \<Longrightarrow> parse_crate_line (render_row xs) = Some (xs, [])"
  by (cases xs) (simp_all add: parse_crate_line_def crate_line_loop_render)

lemma parse_crate_line_shape:
  "parse_crate_line l = Some (ys, r) \<Longrightarrow> ys \<noteq> [] \<and> l = render_row ys @ r"
  by (auto simp: parse_crate_line_def split: option.splits prod.splits
           dest!: parse_crate_or_hole_shape crate_line_loop_shape)

text \<open>C3: printing a non-empty row of slots and parsing it with \<open>all_consuming(parse_crate_line)\<close>
  gives the slots back: a well-formed row of \<open>N\<close> cells yields exactly its \<open>N\<close> slots.\<close>

theorem parse_crate_line_roundtrip:
  "xs \<noteq> [] \<Longrightarrow> all_consuming parse_crate_line (render_row xs) = Some xs"
  by (simp add: all_consuming_def parse_crate_line_render)

theorem parse_crate_line_roundtrip_witness:
  "all_consuming parse_crate_line (render_row [None, Some (Crate CHR ''D'')]) = Some [None, Some (Crate CHR ''D'')]"
  by (rule parse_crate_line_roundtrip) simp

text \<open>C4: conversely, a line that \<open>all_consuming(parse_crate_line)\<close> accepts is exactly the
  printing of the slots it returns: at least one slot, and \<open>4 N - 1\<close> characters for \<open>N\<close>
  slots; no other line is accepted.\<close>

theorem parse_crate_line_accepts_only_rows:
  "all_consuming parse_crate_line l = Some ys \<Longrightarrow>
     ys \<noteq> [] \<and> l = render_row ys \<and> length l = 4 * length ys - 1"
proof -
  assume acc: "all_consuming parse_crate_line l = Some ys"
  then obtain r where "parse_crate_line l = Some (ys, r)" and "r = []"
    by (auto simp: all_consuming_def split: option.splits if_splits)
  then have ne: "ys \<noteq> []" and l: "l = render_row ys"
    by (auto dest: parse_crate_line_shape)
  from ne obtain y ys' where "ys = y # ys'" by (cases ys) auto
  with l have "length l = 4 * length ys - 1" by (simp add: render_row_Cons_length)
  with ne l show ?thesis by simp
qed

theorem parse_crate_line_accepts_only_rows_witness:
  "all_consuming parse_crate_line ''[Z]     [P]'' = Some [Some (Crate CHR ''Z''), None, Some (Crate CHR ''P'')] \<and>
   [Some (Crate CHR ''Z''), None, Some (Crate CHR ''P'')] \<noteq> [] \<and>
   ''[Z]     [P]'' = render_row [Some (Crate CHR ''Z''), None, Some (Crate CHR ''P'')] \<and>
   length ''[Z]     [P]'' = 4 * length [Some (Crate CHR ''Z''), None, Some (Crate CHR ''P'')] - 1"
proof -
  have r: "render_row [Some (Crate CHR ''Z''), None, Some (Crate CHR ''P'')] = ''[Z]     [P]''"
    by simp
  have p0: "parse_crate_line (render_row [Some (Crate CHR ''Z''), None, Some (Crate CHR ''P'')]) =
      Some ([Some (Crate CHR ''Z''), None, Some (Crate CHR ''P'')], [])"
    by (rule parse_crate_line_render) simp
  have p: "all_consuming parse_crate_line ''[Z]     [P]'' = Some [Some (Crate CHR ''Z''), None, Some (Crate CHR ''P'')]"
    using p0 unfolding r by (simp add: all_consuming_def)
  show ?thesis using p parse_crate_line_accepts_only_rows [OF p] by blast
qed

end
