(* ===== verification/Day05_Stacks.thy ===== *)
theory Day05_Stacks
  imports Prelude
begin

text \<open>
  The crate-stack simulator of day 5 (\<open>mod my_solution\<close> of \<open>src/day_05/src/main.rs\<close>).
  \<open>State\<close> is a record holding the stacks, each a \<open>VecDeque<char>\<close> modelled as a list whose
  head is the front (the bottom crate) and whose last element is the back (the top crate).
  Every method that may panic returns \<open>rs_error + _\<close>: the index \<open>(source - 1) as usize\<close>
  overflows for \<open>source = 0\<close> (\<open>ArithOverflow\<close>, the debug-build panic), indexes out of
  range (\<open>IndexOutOfBounds\<close>), \<open>pop_back().unwrap()\<close> on an empty stack
  (\<open>UnwrapNone\<close>). The \<open>for\<close> loops are recursions on the remaining iteration count, in
  the order the code executes the body, so the first panic of the code is the error of the
  model. The lemmas give the closed form of both moves, their agreement on one crate, exactly
  when each move aborts, the conservation of the crates, and the loader of the drawing as a
  refinement of "the characters at columns 1, 5, 9, ...".
\<close>

record move =
  quantity :: u64
  source :: u64
  destination :: u64

text \<open>\<open>Move::from_str\<close>: the words at positions 0, 2 and 4 (\<open>move\<close>, \<open>from\<close>, \<open>to\<close>) are
  skipped unread; the ones at 1, 3 and 5 are \<open>next().unwrap().parse::<u64>()?\<close>.\<close>

definition move_from_str :: "string \<Rightarrow> rs_error + move" where
  "move_from_str s =
     (let parts = split_whitespace s in
      rs_bind (rs_bind (nth_unwrap parts 1) parse_u64_r) (\<lambda>quantity.
      rs_bind (rs_bind (nth_unwrap parts 3) parse_u64_r) (\<lambda>source.
      rs_bind (rs_bind (nth_unwrap parts 5) parse_u64_r) (\<lambda>destination.
      Inr \<lparr>quantity = quantity, source = source, destination = destination\<rparr>))))"

record state =
  stacks :: "char list list"

definition state_new :: "nat \<Rightarrow> state" where
  "state_new number_stacks = \<lparr>stacks = replicate number_stacks []\<rparr>"

definition add_to_front_of_stack :: "state \<Rightarrow> nat \<Rightarrow> char \<Rightarrow> rs_error + state" where
  "add_to_front_of_stack st stack_number to_add =
     (if stack_number < length (stacks st)
      then Inr (st\<lparr>stacks := (stacks st)[stack_number := to_add # stacks st ! stack_number]\<rparr>)
      else Inl IndexOutOfBounds)"

text \<open>\<open>(n - 1) as usize\<close> on a \<open>u64\<close>: subtracting from 0 overflows.\<close>

definition stack_index :: "u64 \<Rightarrow> rs_error + nat" where
  "stack_index n = (if n = 0 then Inl ArithOverflow else Inr (n - 1))"

text \<open>\<open>self.stacks[i].pop_back().unwrap()\<close> and \<open>self.stacks[i].push_back(c)\<close>.\<close>

definition pop_back_at :: "state \<Rightarrow> nat \<Rightarrow> rs_error + (char \<times> state)" where
  "pop_back_at st i =
     (if i < length (stacks st)
      then (if stacks st ! i = [] then Inl UnwrapNone
            else Inr (last (stacks st ! i), st\<lparr>stacks := (stacks st)[i := butlast (stacks st ! i)]\<rparr>))
      else Inl IndexOutOfBounds)"

definition push_back_at :: "state \<Rightarrow> nat \<Rightarrow> char \<Rightarrow> rs_error + state" where
  "push_back_at st i c =
     (if i < length (stacks st)
      then Inr (st\<lparr>stacks := (stacks st)[i := stacks st ! i @ [c]]\<rparr>)
      else Inl IndexOutOfBounds)"

text \<open>\<open>perform_move\<close>: \<open>quantity\<close> times, pop one crate from the source and push it on
  the destination.\<close>

fun perform_move_loop :: "nat \<Rightarrow> u64 \<Rightarrow> u64 \<Rightarrow> state \<Rightarrow> rs_error + state" where
  "perform_move_loop 0 src dst st = Inr st"
| "perform_move_loop (Suc k) src dst st =
     rs_bind (stack_index src) (\<lambda>i.
     rs_bind (pop_back_at st i) (\<lambda>(c, st1).
     rs_bind (stack_index dst) (\<lambda>j.
     rs_bind (push_back_at st1 j c) (\<lambda>st2.
     perform_move_loop k src dst st2))))"

definition perform_move :: "state \<Rightarrow> move \<Rightarrow> rs_error + state" where
  "perform_move st m = perform_move_loop (quantity m) (source m) (destination m) st"

text \<open>\<open>perform_batch_move\<close>: pop \<open>quantity\<close> crates into a vector, reverse it, push
  its crates on the destination in order.\<close>

fun batch_pop_loop :: "nat \<Rightarrow> u64 \<Rightarrow> state \<Rightarrow> char list \<Rightarrow> rs_error + (state \<times> char list)" where
  "batch_pop_loop 0 src st crates = Inr (st, crates)"
| "batch_pop_loop (Suc k) src st crates =
     rs_bind (stack_index src) (\<lambda>i.
     rs_bind (pop_back_at st i) (\<lambda>(c, st1).
     batch_pop_loop k src st1 (crates @ [c])))"

fun push_all :: "u64 \<Rightarrow> char list \<Rightarrow> state \<Rightarrow> rs_error + state" where
  "push_all dst [] st = Inr st"
| "push_all dst (c # cs) st =
     rs_bind (stack_index dst) (\<lambda>j.
     rs_bind (push_back_at st j c) (\<lambda>st1.
     push_all dst cs st1))"

definition perform_batch_move :: "state \<Rightarrow> move \<Rightarrow> rs_error + state" where
  "perform_batch_move st m =
     rs_bind (batch_pop_loop (quantity m) (source m) st []) (\<lambda>(st1, crates).
     push_all (destination m) (rev crates) st1)"

text \<open>\<open>get_topmost_crates\<close>: the back of every stack, \<open>unwrap\<close> panicking on an empty one.\<close>

fun topmost_of :: "char list list \<Rightarrow> rs_error + char list" where
  "topmost_of [] = Inr []"
| "topmost_of (s # ss) =
     (if s = [] then Inl UnwrapNone else rs_bind (topmost_of ss) (\<lambda>res. Inr (last s # res)))"

definition get_topmost_crates :: "state \<Rightarrow> rs_error + char list" where
  "get_topmost_crates st = topmost_of (stacks st)"

text \<open>The loop of \<open>main\<close> over the characters of one line of the drawing, with its
  counters \<open>i\<close> (from \<open>enumerate\<close>), \<open>current_stack\<close>, \<open>char_position\<close> and
  \<open>skip_position\<close>.\<close>

fun load_chars :: "state \<Rightarrow> nat \<Rightarrow> nat \<Rightarrow> nat \<Rightarrow> nat \<Rightarrow> string \<Rightarrow> rs_error + state" where
  "load_chars st i current_stack char_position skip_position [] = Inr st"
| "load_chars st i current_stack char_position skip_position (c # cs) =
     (if i = char_position then
        rs_bind (if is_alphabetic c then add_to_front_of_stack st current_stack c else Inr st) (\<lambda>st'.
        load_chars st' (Suc i) (Suc current_stack) (char_position + 4) skip_position cs)
      else if i = skip_position then
        load_chars st (Suc i) current_stack char_position (skip_position + 4) cs
      else load_chars st (Suc i) current_stack char_position skip_position cs)"

definition load_line :: "state \<Rightarrow> string \<Rightarrow> rs_error + state" where
  "load_line st line = load_chars st 0 0 1 3 line"

fun load_lines :: "state \<Rightarrow> string list \<Rightarrow> rs_error + state" where
  "load_lines st [] = Inr st"
| "load_lines st (l # ls) = rs_bind (load_line st l) (\<lambda>st'. load_lines st' ls)"

text \<open>\<open>input_moves.lines().map(Move::from_str).map(|x| x.unwrap()).for_each(perform_batch_move)\<close>:
  the iterator is lazy, so each line is parsed and then applied before the next is read.\<close>

fun run_moves :: "state \<Rightarrow> string list \<Rightarrow> rs_error + state" where
  "run_moves st [] = Inr st"
| "run_moves st (l # ls) =
     rs_bind (move_from_str l) (\<lambda>m. rs_bind (perform_batch_move st m) (\<lambda>st'. run_moves st' ls))"

definition day05_main :: "string \<Rightarrow> rs_error + char list" where
  "day05_main input =
     (let parts = split_on_pair nl nl input;
          input_crates = hd parts
      in if length parts < 2 then Inl UnwrapNone
         else
           (let input_moves = parts ! 1;
                number_stacks = 9;
                st = state_new number_stacks
            in rs_bind (load_lines st (rs_lines input_crates)) (\<lambda>st1.
               rs_bind (run_moves st1 (rs_lines input_moves)) (\<lambda>st2.
               get_topmost_crates st2))))"

text \<open>Reference for the loader: the characters of a line at columns \<open>d\<close>, \<open>d + 4\<close>,
  \<open>d + 8\<close>, ..., and the crates among them added to the fronts of stacks \<open>k\<close>,
  \<open>k + 1\<close>, ...\<close>

fun cells_from :: "nat \<Rightarrow> string \<Rightarrow> char list" where
  "cells_from d [] = []"
| "cells_from d (c # cs) = (if d = 0 then c # cells_from 3 cs else cells_from (d - 1) cs)"

fun add_cells :: "state \<Rightarrow> nat \<Rightarrow> char list \<Rightarrow> rs_error + state" where
  "add_cells st k [] = Inr st"
| "add_cells st k (c # cs) =
     rs_bind (if is_alphabetic c then add_to_front_of_stack st k c else Inr st) (\<lambda>st'. add_cells st' (Suc k) cs)"

text \<open>The line the puzzle input uses for a move.\<close>

definition render_move :: "move \<Rightarrow> string" where
  "render_move m =
     unwords [''move'', show_nat (quantity m), ''from'', show_nat (source m), ''to'', show_nat (destination m)]"

text \<open>Two inputs for \<open>main\<close>: the puzzle's own example (three stacks) and a nine-stack one.\<close>

definition puzzle_example :: string where
  "puzzle_example = unlines [''    [D]    '', ''[N] [C]    '', ''[Z] [M] [P]'', '' 1   2   3 '', [],
     ''move 1 from 2 to 1'', ''move 3 from 1 to 3'', ''move 2 from 2 to 1'', ''move 1 from 1 to 2'']"

definition nine_stack_example :: string where
  "nine_stack_example = unlines [''[J]                               '', ''[A] [B] [C] [D] [E] [F] [G] [H] [I]'',
     '' 1   2   3   4   5   6   7   8   9 '', [], ''move 1 from 1 to 2'']"

lemmas stack_eval_simps = stack_index_def pop_back_at_def push_back_at_def add_to_front_of_stack_def

subsection \<open>Abstract specification of a move\<close>

text \<open>Take the top \<open>q\<close> crates off stack \<open>i\<close> and put \<open>f\<close> of that block on top of
  stack \<open>j\<close> (stacks bottom first); \<open>f = rev\<close> is the one-at-a-time crane, \<open>f = id\<close> the
  batch crane. A move is valid when both stacks exist and the source holds \<open>q\<close> crates.\<close>

definition move_block :: "char list list \<Rightarrow> nat \<Rightarrow> nat \<Rightarrow> nat \<Rightarrow> (char list \<Rightarrow> char list) \<Rightarrow> char list list" where
  "move_block ss q i j f =
     (let s = ss ! i; n = length s; rest = ss[i := take (n - q) s]
      in rest[j := rest ! j @ f (drop (n - q) s)])"

definition valid_move :: "state \<Rightarrow> move \<Rightarrow> bool" where
  "valid_move st m \<longleftrightarrow>
     0 < source m \<and> source m \<le> length (stacks st) \<and>
     0 < destination m \<and> destination m \<le> length (stacks st) \<and>
     quantity m \<le> length (stacks st ! (source m - 1))"

definition crates_of :: "state \<Rightarrow> char multiset" where
  "crates_of st = mset (concat (stacks st))"

subsection \<open>One pop, one push\<close>

lemma stack_index_Suc [simp]: "stack_index (Suc i) = Inr i"
  by (simp add: stack_index_def)

lemma stack_index_0 [simp]: "stack_index 0 = Inl ArithOverflow"
  by (simp add: stack_index_def)

lemma pop_back_at_snoc:
  "i < length (stacks st) \<Longrightarrow> stacks st ! i = xs @ [y] \<Longrightarrow>
     pop_back_at st i = Inr (y, st\<lparr>stacks := (stacks st)[i := xs]\<rparr>)"
  by (simp add: pop_back_at_def)

lemma push_back_at_ok:
  "i < length (stacks st) \<Longrightarrow> push_back_at st i c = Inr (st\<lparr>stacks := (stacks st)[i := stacks st ! i @ [c]]\<rparr>)"
  by (simp add: push_back_at_def)

lemma state_update_same [simp]:
  "i < length (stacks st) \<Longrightarrow> stacks st ! i = v \<Longrightarrow> st\<lparr>stacks := (stacks st)[i := v]\<rparr> = st"
  by (cases st) (simp add: list_update_same_conv)

lemmas stack_step_simps = pop_back_at_snoc push_back_at_ok

subsection \<open>Closed forms of the loops\<close>

lemma batch_pop_loop_split:
  "i < length (stacks st) \<Longrightarrow> stacks st ! i = xs @ ys \<Longrightarrow>
     batch_pop_loop (length ys) (Suc i) st acc = Inr (st\<lparr>stacks := (stacks st)[i := xs]\<rparr>, acc @ rev ys)"
proof (induction ys arbitrary: st acc rule: rev_induct)
  case Nil
  then show ?case by simp
next
  case (snoc y ys)
  let ?st1 = "st\<lparr>stacks := (stacks st)[i := xs @ ys]\<rparr>"
  have "batch_pop_loop (length ys) (Suc i) ?st1 (acc @ [y]) =
          Inr (?st1\<lparr>stacks := (stacks ?st1)[i := xs]\<rparr>, (acc @ [y]) @ rev ys)"
    using snoc.prems by (intro snoc.IH) simp_all
  with snoc.prems show ?case by (simp add: pop_back_at_snoc)
qed

lemma push_all_ok:
  "j < length (stacks st) \<Longrightarrow> push_all (Suc j) cs st = Inr (st\<lparr>stacks := (stacks st)[j := stacks st ! j @ cs]\<rparr>)"
  by (induction cs arbitrary: st) (simp_all add: push_back_at_ok)

lemma perform_move_loop_split:
  "i < length (stacks st) \<Longrightarrow> j < length (stacks st) \<Longrightarrow> i \<noteq> j \<Longrightarrow> stacks st ! i = xs @ ys \<Longrightarrow>
     perform_move_loop (length ys) (Suc i) (Suc j) st =
       Inr (st\<lparr>stacks := (stacks st)[i := xs, j := stacks st ! j @ rev ys]\<rparr>)"
proof (induction ys arbitrary: st rule: rev_induct)
  case Nil
  then have "(stacks st)[i := xs, j := stacks st ! j] = stacks st" by (metis append_Nil2 list_update_id)
  then show ?case by (cases st) simp
next
  case (snoc y ys)
  let ?st2 = "st\<lparr>stacks := (stacks st)[i := xs @ ys, j := stacks st ! j @ [y]]\<rparr>"
  have "perform_move_loop (length ys) (Suc i) (Suc j) ?st2 =
          Inr (?st2\<lparr>stacks := (stacks ?st2)[i := xs, j := stacks ?st2 ! j @ rev ys]\<rparr>)"
    using snoc.prems by (intro snoc.IH) simp_all
  with snoc.prems show ?case
    by (simp add: stack_step_simps list_update_swap [of i j])
qed

lemma perform_move_loop_same:
  "i < length (stacks st) \<Longrightarrow> stacks st ! i \<noteq> [] \<Longrightarrow> perform_move_loop k (Suc i) (Suc i) st = Inr st"
proof (induction k)
  case (Suc k)
  obtain xs y where s: "stacks st ! i = xs @ [y]"
    using Suc.prems(2) by (metis append_butlast_last_id)
  with Suc show ?case by (simp add: stack_step_simps)
qed simp

lemma valid_move_indices:
  assumes "valid_move st m"
  obtains i j where "source m = Suc i" "destination m = Suc j"
    "i < length (stacks st)" "j < length (stacks st)" "quantity m \<le> length (stacks st ! i)"
  using assms by (cases "source m"; cases "destination m") (auto simp: valid_move_def)

lemma split_top:
  "q \<le> length s \<Longrightarrow> s = take (length s - q) s @ drop (length s - q) s \<and> length (drop (length s - q) s) = q"
  by simp

lemma batch_pop_loop_insufficient:
  "i < length (stacks st) \<Longrightarrow> length (stacks st ! i) < k \<Longrightarrow> batch_pop_loop k (Suc i) st acc = Inl UnwrapNone"
proof (induction k arbitrary: st acc)
  case (Suc k)
  show ?case
  proof (cases "stacks st ! i = []")
    case True
    with Suc.prems show ?thesis by (simp add: pop_back_at_def)
  next
    case False
    then obtain xs y where "stacks st ! i = xs @ [y]" by (metis append_butlast_last_id)
    with Suc show ?thesis by (simp add: pop_back_at_snoc)
  qed
qed simp

lemma perform_move_loop_insufficient:
  "i < length (stacks st) \<Longrightarrow> j < length (stacks st) \<Longrightarrow> i \<noteq> j \<Longrightarrow> length (stacks st ! i) < k \<Longrightarrow>
     perform_move_loop k (Suc i) (Suc j) st = Inl UnwrapNone"
proof (induction k arbitrary: st)
  case (Suc k)
  show ?case
  proof (cases "stacks st ! i = []")
    case True
    with Suc.prems show ?thesis by (simp add: pop_back_at_def)
  next
    case False
    then obtain xs y where "stacks st ! i = xs @ [y]" by (metis append_butlast_last_id)
    with Suc show ?thesis by (simp add: stack_step_simps)
  qed
qed simp

subsection \<open>The two cranes\<close>

lemma perform_batch_move_block:
  "valid_move st m \<Longrightarrow>
     perform_batch_move st m =
       Inr (st\<lparr>stacks := move_block (stacks st) (quantity m) (source m - 1) (destination m - 1) id\<rparr>)"
proof -
  assume "valid_move st m"
  then obtain i j where ij: "source m = Suc i" "destination m = Suc j"
    "i < length (stacks st)" "j < length (stacks st)" and q: "quantity m \<le> length (stacks st ! i)"
    by (rule valid_move_indices)
  let ?s = "stacks st ! i"
  let ?n = "length ?s"
  from split_top [OF q] have s: "?s = take (?n - quantity m) ?s @ drop (?n - quantity m) ?s"
    and len: "length (drop (?n - quantity m) ?s) = quantity m" by simp_all
  have "batch_pop_loop (quantity m) (Suc i) st [] =
          Inr (st\<lparr>stacks := (stacks st)[i := take (?n - quantity m) ?s]\<rparr>, rev (drop (?n - quantity m) ?s))"
    using batch_pop_loop_split [OF ij(3) s, of "[]"] by (simp only: len) simp
  with ij show ?thesis
    by (simp add: perform_batch_move_def push_all_ok move_block_def Let_def)
qed

text \<open>C1: on a valid move, \<open>perform_batch_move\<close> takes the top \<open>quantity\<close> crates off the
  source and puts them on the destination in their original order (the 9001 crane).\<close>

theorem perform_batch_move_spec:
  "valid_move st m \<Longrightarrow>
     perform_batch_move st m =
       Inr (st\<lparr>stacks := move_block (stacks st) (quantity m) (source m - 1) (destination m - 1) id\<rparr>)"
  by (rule perform_batch_move_block)

text \<open>C2: on a valid move between two different stacks, \<open>perform_move\<close> moves the top
  \<open>quantity\<close> crates one at a time, so they arrive in reverse order (the 9000 crane).\<close>

theorem perform_move_spec:
  "valid_move st m \<Longrightarrow> source m \<noteq> destination m \<Longrightarrow>
     perform_move st m =
       Inr (st\<lparr>stacks := move_block (stacks st) (quantity m) (source m - 1) (destination m - 1) rev\<rparr>)"
proof -
  assume v: "valid_move st m" and ne: "source m \<noteq> destination m"
  from v obtain i j where ij: "source m = Suc i" "destination m = Suc j"
    "i < length (stacks st)" "j < length (stacks st)" and q: "quantity m \<le> length (stacks st ! i)"
    by (rule valid_move_indices)
  from ij ne have "i \<noteq> j" by simp
  let ?s = "stacks st ! i"
  let ?n = "length ?s"
  from split_top [OF q] have s: "?s = take (?n - quantity m) ?s @ drop (?n - quantity m) ?s"
    and len: "length (drop (?n - quantity m) ?s) = quantity m" by simp_all
  have "perform_move_loop (quantity m) (Suc i) (Suc j) st =
          Inr (st\<lparr>stacks := (stacks st)[i := take (?n - quantity m) ?s,
                                       j := stacks st ! j @ rev (drop (?n - quantity m) ?s)]\<rparr>)"
    using perform_move_loop_split [OF ij(3,4) \<open>i \<noteq> j\<close> s] by (simp only: len)
  with ij \<open>i \<noteq> j\<close> show ?thesis
    by (simp add: perform_move_def move_block_def Let_def)
qed

theorem perform_batch_move_spec_witness:
  "valid_move \<lparr>stacks = [''ZND'', ''MC'', ''P'']\<rparr> \<lparr>quantity = 3, source = 1, destination = 3\<rparr> \<and>
   perform_batch_move \<lparr>stacks = [''ZND'', ''MC'', ''P'']\<rparr> \<lparr>quantity = 3, source = 1, destination = 3\<rparr> =
     Inr \<lparr>stacks = [[], ''MC'', ''PZND'']\<rparr>"
proof -
  have v: "valid_move \<lparr>stacks = [''ZND'', ''MC'', ''P'']\<rparr> \<lparr>quantity = 3, source = 1, destination = 3\<rparr>"
    by (simp add: valid_move_def)
  show ?thesis
    using v perform_batch_move_spec [OF v] by (simp add: move_block_def)
qed

theorem perform_move_spec_witness:
  "valid_move \<lparr>stacks = [''ZN'', ''MCD'', ''P'']\<rparr> \<lparr>quantity = 1, source = 2, destination = 1\<rparr> \<and>
   (2::nat) \<noteq> 1 \<and>
   perform_move \<lparr>stacks = [''ZN'', ''MCD'', ''P'']\<rparr> \<lparr>quantity = 1, source = 2, destination = 1\<rparr> =
     Inr \<lparr>stacks = [''ZND'', ''MC'', ''P'']\<rparr>"
proof -
  have v: "valid_move \<lparr>stacks = [''ZN'', ''MCD'', ''P'']\<rparr> \<lparr>quantity = 1, source = 2, destination = 1\<rparr>"
    by (simp add: valid_move_def)
  show ?thesis
    using v perform_move_spec [OF v] by (simp add: move_block_def)
qed

lemma push_all_fails:
  "cs \<noteq> [] \<Longrightarrow> \<not> (0 < dst \<and> dst \<le> length (stacks st)) \<Longrightarrow> \<exists>e. push_all dst cs st = Inl e"
  by (cases cs; cases dst) (auto simp: push_back_at_def)

lemma batch_pop_loop_bad_source:
  "\<not> (0 < src \<and> src \<le> length (stacks st)) \<Longrightarrow> \<exists>e. batch_pop_loop (Suc k) src st acc = Inl e"
  by (cases src) (auto simp: pop_back_at_def)

text \<open>C5: \<open>perform_batch_move\<close> returns normally exactly when the move is valid or moves no
  crate; every other move panics. In particular a move of zero crates never panics, even
  from or to a stack that does not exist.\<close>

theorem perform_batch_move_ok_iff:
  "(\<exists>st'. perform_batch_move st m = Inr st') \<longleftrightarrow> quantity m = 0 \<or> valid_move st m"
proof
  assume "quantity m = 0 \<or> valid_move st m"
  then show "\<exists>st'. perform_batch_move st m = Inr st'"
    by (auto simp: perform_batch_move_def dest: perform_batch_move_block)
next
  assume ok: "\<exists>st'. perform_batch_move st m = Inr st'"
  show "quantity m = 0 \<or> valid_move st m"
  proof (rule ccontr)
    assume bad: "\<not> (quantity m = 0 \<or> valid_move st m)"
    then obtain k where k: "quantity m = Suc k" by (cases "quantity m") auto
    show False
    proof (cases "0 < source m \<and> source m \<le> length (stacks st)")
      case False
      then obtain e where "batch_pop_loop (Suc k) (source m) st [] = Inl e"
        using batch_pop_loop_bad_source by blast
      with k ok show False by (auto simp del: batch_pop_loop.simps simp: perform_batch_move_def)
    next
      case True
      then obtain i where i: "source m = Suc i" "i < length (stacks st)" by (cases "source m") auto
      show False
      proof (cases "quantity m \<le> length (stacks st ! i)")
        case False
        with i ok show False by (simp add: perform_batch_move_def batch_pop_loop_insufficient)
      next
        case True
        let ?s = "stacks st ! i"
        let ?n = "length ?s"
        let ?st1 = "st\<lparr>stacks := (stacks st)[i := take (?n - quantity m) ?s]\<rparr>"
        from split_top [OF True] have s: "?s = take (?n - quantity m) ?s @ drop (?n - quantity m) ?s"
          and len: "length (drop (?n - quantity m) ?s) = quantity m" by simp_all
        have pop: "batch_pop_loop (quantity m) (Suc i) st [] = Inr (?st1, rev (drop (?n - quantity m) ?s))"
          using batch_pop_loop_split [OF i(2) s, of "[]"] by (simp only: len) simp
        from bad True i have dst: "\<not> (0 < destination m \<and> destination m \<le> length (stacks ?st1))"
          by (auto simp: valid_move_def)
        from len k have "drop (?n - quantity m) ?s \<noteq> []" by auto
        with dst obtain e where "push_all (destination m) (drop (?n - quantity m) ?s) ?st1 = Inl e"
          using push_all_fails by blast
        with ok i pop show False by (simp add: perform_batch_move_def)
      qed
    qed
  qed
qed

theorem perform_batch_move_ok_iff_witness:
  "(\<exists>st'. perform_batch_move \<lparr>stacks = [''ZN'', ''MCD'', ''P'']\<rparr> \<lparr>quantity = 0, source = 7, destination = 0\<rparr> = Inr st') \<and>
   \<not> (\<exists>st'. perform_batch_move \<lparr>stacks = [''ZN'', ''MCD'', ''P'']\<rparr> \<lparr>quantity = 3, source = 1, destination = 3\<rparr> = Inr st')"
  using perform_batch_move_ok_iff [of "\<lparr>stacks = [''ZN'', ''MCD'', ''P'']\<rparr>" "\<lparr>quantity = 0, source = 7, destination = 0\<rparr>"]
        perform_batch_move_ok_iff [of "\<lparr>stacks = [''ZN'', ''MCD'', ''P'']\<rparr>" "\<lparr>quantity = 3, source = 1, destination = 3\<rparr>"]
  by (simp add: valid_move_def)

text \<open>C6: the two cranes agree on moves of at most one crate, on every state and every
  move, the panicking ones included.\<close>

theorem perform_move_eq_batch_single:
  "quantity m \<le> 1 \<Longrightarrow> perform_move st m = perform_batch_move st m"
proof -
  assume "quantity m \<le> 1"
  then consider "quantity m = 0" | "quantity m = Suc 0" by linarith
  then show ?thesis
  proof cases
    case 1
    then show ?thesis by (simp add: perform_move_def perform_batch_move_def)
  next
    case 2
    then show ?thesis
      by (simp add: perform_move_def perform_batch_move_def rs_bind_def split: sum.splits prod.splits)
  qed
qed

theorem perform_move_eq_batch_single_witness:
  "(1::nat) \<le> 1 \<and>
   perform_move \<lparr>stacks = [''ZN'', ''MCD'', ''P'']\<rparr> \<lparr>quantity = 1, source = 2, destination = 1\<rparr> =
   perform_batch_move \<lparr>stacks = [''ZN'', ''MCD'', ''P'']\<rparr> \<lparr>quantity = 1, source = 2, destination = 1\<rparr>"
  using perform_move_eq_batch_single [of "\<lparr>quantity = 1, source = 2, destination = 1\<rparr>"] by simp

text \<open>C7: a move that asks for more crates than its existing source stack holds panics on
  \<open>pop_back().unwrap()\<close> instead of moving fewer: always for the batch crane, and for the
  one-at-a-time crane when it moves between two existing, different stacks.\<close>

theorem move_insufficient_aborts:
  assumes "0 < source m" "source m \<le> length (stacks st)"
    and "length (stacks st ! (source m - 1)) < quantity m"
  shows "perform_batch_move st m = Inl UnwrapNone \<and>
         (0 < destination m \<and> destination m \<le> length (stacks st) \<and> destination m \<noteq> source m \<longrightarrow>
            perform_move st m = Inl UnwrapNone)"
proof -
  from assms obtain i where i: "source m = Suc i" "i < length (stacks st)"
    by (cases "source m") auto
  with assms(3) have "perform_batch_move st m = Inl UnwrapNone"
    by (simp add: perform_batch_move_def batch_pop_loop_insufficient)
  moreover have "perform_move st m = Inl UnwrapNone"
    if "0 < destination m" "destination m \<le> length (stacks st)" "destination m \<noteq> source m"
  proof -
    from that obtain j where "destination m = Suc j" "j < length (stacks st)"
      by (cases "destination m") auto
    with i assms(3) that(3) show ?thesis
      by (simp add: perform_move_def perform_move_loop_insufficient)
  qed
  ultimately show ?thesis by blast
qed

theorem move_insufficient_aborts_witness:
  "perform_batch_move \<lparr>stacks = [''ZN'', ''MCD'', ''P'']\<rparr> \<lparr>quantity = 3, source = 1, destination = 3\<rparr> = Inl UnwrapNone \<and>
   perform_move \<lparr>stacks = [''ZN'', ''MCD'', ''P'']\<rparr> \<lparr>quantity = 3, source = 1, destination = 3\<rparr> = Inl UnwrapNone"
  using move_insufficient_aborts [of "\<lparr>quantity = 3, source = 1, destination = 3\<rparr>" "\<lparr>stacks = [''ZN'', ''MCD'', ''P'']\<rparr>"]
  by simp

text \<open>C8: a one-at-a-time move from a non-empty stack onto itself returns normally and leaves
  the state unchanged whatever the quantity, even one larger than the stack: each crate popped
  is pushed straight back.\<close>

theorem perform_move_same_stack:
  "0 < source m \<Longrightarrow> source m \<le> length (stacks st) \<Longrightarrow> destination m = source m \<Longrightarrow>
     stacks st ! (source m - 1) \<noteq> [] \<Longrightarrow> perform_move st m = Inr st"
  by (cases "source m") (simp_all add: perform_move_def perform_move_loop_same)

theorem perform_move_same_stack_witness:
  "(0::nat) < 1 \<and> 1 \<le> length (stacks \<lparr>stacks = [''ZN'', ''MCD'', ''P'']\<rparr>) \<and> (1::nat) = 1 \<and>
   stacks \<lparr>stacks = [''ZN'', ''MCD'', ''P'']\<rparr> ! (1 - 1) \<noteq> [] \<and>
   perform_move \<lparr>stacks = [''ZN'', ''MCD'', ''P'']\<rparr> \<lparr>quantity = 5, source = 1, destination = 1\<rparr> =
     Inr \<lparr>stacks = [''ZN'', ''MCD'', ''P'']\<rparr>"
  using perform_move_same_stack [of "\<lparr>quantity = 5, source = 1, destination = 1\<rparr>" "\<lparr>stacks = [''ZN'', ''MCD'', ''P'']\<rparr>"]
  by simp

subsection \<open>Conservation of the crates\<close>

lemma pop_back_at_crates:
  "pop_back_at st i = Inr (c, st1) \<Longrightarrow>
     crates_of st1 + {#c#} = crates_of st \<and> length (stacks st1) = length (stacks st)"
proof -
  assume pop: "pop_back_at st i = Inr (c, st1)"
  then have i: "i < length (stacks st)" and ne: "stacks st ! i \<noteq> []"
    and c: "c = last (stacks st ! i)" and st1: "stacks st1 = (stacks st)[i := butlast (stacks st ! i)]"
    by (auto simp: pop_back_at_def split: if_splits)
  let ?A = "mset (concat (stacks st1))"
  let ?B = "mset (butlast (stacks st ! i))"
  have s: "mset (stacks st ! i) = ?B + {#c#}"
    using ne c by (metis append_butlast_last_id mset.simps(1,2) mset_append add_mset_add_single add_0)
  from mset_concat_update [OF i, of "butlast (stacks st ! i)"] st1 s
  have "(?A + {#c#}) + ?B = crates_of st + ?B"
    by (simp add: crates_of_def ac_simps)
  then have "?A + {#c#} = crates_of st" by (rule add_right_imp_eq)
  with st1 show ?thesis by (simp add: crates_of_def)
qed

lemma push_back_at_crates:
  "push_back_at st i c = Inr st1 \<Longrightarrow>
     crates_of st1 = crates_of st + {#c#} \<and> length (stacks st1) = length (stacks st)"
proof -
  assume push: "push_back_at st i c = Inr st1"
  then have i: "i < length (stacks st)" and st1: "stacks st1 = (stacks st)[i := stacks st ! i @ [c]]"
    by (auto simp: push_back_at_def split: if_splits)
  from mset_concat_update [OF i, of "stacks st ! i @ [c]"] st1 show ?thesis
    by (simp add: crates_of_def)
qed

lemma perform_move_loop_crates:
  "perform_move_loop k src dst st = Inr st' \<Longrightarrow>
     crates_of st' = crates_of st \<and> length (stacks st') = length (stacks st)"
proof (induction k arbitrary: st)
  case (Suc k)
  then obtain i c st1 j st2 where
    p1: "pop_back_at st i = Inr (c, st1)" and p2: "push_back_at st1 j c = Inr st2" and
    p3: "perform_move_loop k src dst st2 = Inr st'"
    by (auto simp: rs_bind_def split: sum.splits prod.splits)
  from pop_back_at_crates [OF p1] push_back_at_crates [OF p2] Suc.IH [OF p3] show ?case by simp
qed simp

lemma batch_pop_loop_crates:
  "batch_pop_loop k src st acc = Inr (st', crates) \<Longrightarrow>
     crates_of st' + mset crates = crates_of st + mset acc \<and> length (stacks st') = length (stacks st)"
proof (induction k arbitrary: st acc)
  case (Suc k)
  then obtain i c st1 where
    pop: "pop_back_at st i = Inr (c, st1)" and rest: "batch_pop_loop k src st1 (acc @ [c]) = Inr (st', crates)"
    by (auto simp: rs_bind_def split: sum.splits prod.splits)
  from pop_back_at_crates [OF pop] have "crates_of st = crates_of st1 + {#c#}"
    and "length (stacks st1) = length (stacks st)" by simp_all
  with Suc.IH [OF rest] show ?case by (simp add: ac_simps)
qed simp

lemma push_all_crates:
  "push_all dst cs st = Inr st' \<Longrightarrow>
     crates_of st' = crates_of st + mset cs \<and> length (stacks st') = length (stacks st)"
proof (induction cs arbitrary: st)
  case (Cons c cs)
  then obtain j st1 where
    push: "push_back_at st j c = Inr st1" and rest: "push_all dst cs st1 = Inr st'"
    by (auto simp: rs_bind_def split: sum.splits)
  from Cons.IH [OF rest] push_back_at_crates [OF push] show ?case
    by (simp add: add.assoc)
qed simp

lemma perform_batch_move_crates:
  "perform_batch_move st m = Inr st' \<Longrightarrow>
     crates_of st' = crates_of st \<and> length (stacks st') = length (stacks st)"
proof -
  assume "perform_batch_move st m = Inr st'"
  then obtain st1 crates where
    pop: "batch_pop_loop (quantity m) (source m) st [] = Inr (st1, crates)" and
    push: "push_all (destination m) (rev crates) st1 = Inr st'"
    by (auto simp: perform_batch_move_def rs_bind_def split: sum.splits prod.splits)
  from batch_pop_loop_crates [OF pop] push_all_crates [OF push] show ?thesis by simp
qed

lemma perform_move_crates:
  "perform_move st m = Inr st' \<Longrightarrow>
     crates_of st' = crates_of st \<and> length (stacks st') = length (stacks st)"
  by (simp add: perform_move_def perform_move_loop_crates)

text \<open>C9: a move that returns normally, by either crane, neither creates nor destroys a
  crate and keeps the number of stacks: the multiset of all crates is unchanged.\<close>

theorem move_conserves_crates:
  "perform_move st m = Inr st' \<or> perform_batch_move st m = Inr st' \<Longrightarrow>
     crates_of st' = crates_of st \<and> length (stacks st') = length (stacks st)"
  using perform_move_crates perform_batch_move_crates by blast

theorem move_conserves_crates_witness:
  "(perform_move \<lparr>stacks = [''ZN'', ''MCD'', ''P'']\<rparr> \<lparr>quantity = 2, source = 2, destination = 3\<rparr> = Inr \<lparr>stacks = [''ZN'', ''M'', ''PDC'']\<rparr> \<or>
    perform_batch_move \<lparr>stacks = [''ZN'', ''MCD'', ''P'']\<rparr> \<lparr>quantity = 2, source = 2, destination = 3\<rparr> = Inr \<lparr>stacks = [''ZN'', ''M'', ''PDC'']\<rparr>) \<and>
   crates_of \<lparr>stacks = [''ZN'', ''M'', ''PDC'']\<rparr> = crates_of \<lparr>stacks = [''ZN'', ''MCD'', ''P'']\<rparr>"
proof -
  have h: "perform_move \<lparr>stacks = [''ZN'', ''MCD'', ''P'']\<rparr> \<lparr>quantity = 2, source = 2, destination = 3\<rparr> = Inr \<lparr>stacks = [''ZN'', ''M'', ''PDC'']\<rparr>"
    by (simp add: perform_move_def pop_back_at_def push_back_at_def numeral_eq_Suc)
  show ?thesis using h move_conserves_crates [OF disjI1 [OF h]] by simp
qed

lemma run_moves_crates:
  "run_moves st ls = Inr st' \<Longrightarrow> crates_of st' = crates_of st \<and> length (stacks st') = length (stacks st)"
proof (induction ls arbitrary: st)
  case (Cons l ls)
  then obtain m st1 where mv: "perform_batch_move st m = Inr st1" and rest: "run_moves st1 ls = Inr st'"
    by (auto simp: rs_bind_def split: sum.splits)
  from perform_batch_move_crates [OF mv] Cons.IH [OF rest] show ?case by simp
qed simp

text \<open>C10: the loop of \<open>main\<close> that parses and applies the move lines one after the other
  keeps the multiset of crates and the number of stacks when it runs to the end.\<close>

theorem run_moves_conserves_crates:
  "run_moves st ls = Inr st' \<Longrightarrow> crates_of st' = crates_of st \<and> length (stacks st') = length (stacks st)"
  by (rule run_moves_crates)

theorem run_moves_conserves_crates_witness:
  "run_moves \<lparr>stacks = [''ZN'', ''MCD'', ''P'']\<rparr> [''move 1 from 2 to 1'', ''move 3 from 1 to 3''] =
     Inr \<lparr>stacks = [[], ''MC'', ''PZND'']\<rparr> \<and>
   crates_of \<lparr>stacks = [[], ''MC'', ''PZND'']\<rparr> = crates_of \<lparr>stacks = [''ZN'', ''MCD'', ''P'']\<rparr>"
proof -
  have h: "run_moves \<lparr>stacks = [''ZN'', ''MCD'', ''P'']\<rparr> [''move 1 from 2 to 1'', ''move 3 from 1 to 3''] =
     Inr \<lparr>stacks = [[], ''MC'', ''PZND'']\<rparr>"
  proof -
    have m1: "move_from_str ''move 1 from 2 to 1'' = Inr \<lparr>quantity = 1, source = 2, destination = 1\<rparr>"
      and m2: "move_from_str ''move 3 from 1 to 3'' = Inr \<lparr>quantity = 3, source = 1, destination = 3\<rparr>"
      by (simp_all add: move_from_str_def stack_eval_simps parse_eval_simps)
    have p1: "perform_batch_move \<lparr>stacks = [''ZN'', ''MCD'', ''P'']\<rparr> \<lparr>quantity = 1, source = 2, destination = 1\<rparr> =
                Inr \<lparr>stacks = [''ZND'', ''MC'', ''P'']\<rparr>"
      and p2: "perform_batch_move \<lparr>stacks = [''ZND'', ''MC'', ''P'']\<rparr> \<lparr>quantity = 3, source = 1, destination = 3\<rparr> =
                Inr \<lparr>stacks = [[], ''MC'', ''PZND'']\<rparr>"
      by (simp_all add: perform_batch_move_def stack_eval_simps numeral_eq_Suc)
    show ?thesis by (simp only: run_moves.simps m1 m2 rs_bind_simps p1 p2)
  qed
  show ?thesis using h run_moves_conserves_crates [OF h] by simp
qed

subsection \<open>The drawing loader\<close>

lemma load_chars_cells:
  "load_chars st i cur (i + d) sp cs = add_cells st cur (cells_from d cs)"
proof (induction cs arbitrary: st i cur d sp)
  case Nil
  show ?case by simp
next
  case (Cons c cs)
  show ?case
  proof (cases d)
    case 0
    have "\<And>st'. load_chars st' (Suc i) (Suc cur) (Suc i + 3) sp cs = add_cells st' (Suc cur) (cells_from 3 cs)"
      by (rule Cons.IH)
    with 0 show ?thesis by (simp add: add.commute)
  next
    case (Suc d')
    have IH': "\<And>st' j cur' sp'. load_chars st' (Suc j) cur' (Suc (j + d')) sp' cs = add_cells st' cur' (cells_from d' cs)"
      using Cons.IH by (metis add_Suc)
    from Suc show ?thesis by (simp add: IH')
  qed
qed

lemma cells_from_nth:
  "d \<le> 3 \<Longrightarrow> cells_from d cs = map (\<lambda>k. cs ! (d + 4 * k)) [0..<(length cs + 3 - d) div 4]"
proof (induction cs arbitrary: d)
  case Nil
  then show ?case by simp
next
  case (Cons c cs)
  show ?case
  proof (cases d)
    case 0
    have "(4 + length cs) div 4 = Suc (length cs div 4)" by simp
    with 0 Cons.IH [of 3] show ?thesis by (simp add: map_upt_Suc del: upt_Suc)
  next
    case (Suc d')
    with Cons.prems Cons.IH [of d'] show ?thesis by (simp add: add.commute)
  qed
qed

lemma load_line_add_cells:
  "load_line st line = add_cells st 0 (map (\<lambda>k. line ! (4 * k + 1)) [0..<(length line + 2) div 4])"
proof -
  have "load_line st line = add_cells st 0 (cells_from 1 line)"
    using load_chars_cells [of st 0 0 1 3 line] by (simp add: load_line_def)
  also have "cells_from 1 line = map (\<lambda>k. line ! (4 * k + 1)) [0..<(length line + 2) div 4]"
    by (simp add: cells_from_nth add.commute)
  finally show ?thesis .
qed

text \<open>C11: loading one line of the drawing, with the loop's four counters, is adding the
  alphabetic characters found at columns 1, 5, 9, ... to the fronts of stacks 0, 1, 2, ...
  in order; \<open>skip_position\<close> has no effect.\<close>

theorem load_line_refines:
  "load_line st line = add_cells st 0 (map (\<lambda>k. line ! (4 * k + 1)) [0..<(length line + 2) div 4])"
  by (rule load_line_add_cells)

subsection \<open>The instruction parser\<close>

text \<open>C12: printing a move whose three numbers fit in a \<open>u64\<close> as
  \<open>move q from s to d\<close> and parsing it with \<open>Move::from_str\<close> gives the move back.\<close>

theorem move_from_str_roundtrip:
  "q < 2 ^ 64 \<Longrightarrow> s < 2 ^ 64 \<Longrightarrow> d < 2 ^ 64 \<Longrightarrow>
     move_from_str (render_move \<lparr>quantity = q, source = s, destination = d\<rparr>) =
       Inr \<lparr>quantity = q, source = s, destination = d\<rparr>"
proof -
  assume b: "q < 2 ^ 64" "s < 2 ^ 64" "d < 2 ^ 64"
  have ok: "word_ok ''move''" "word_ok ''from''" "word_ok ''to''"
    by (simp_all add: word_ok_def is_ws_def)
  then have "split_whitespace (render_move \<lparr>quantity = q, source = s, destination = d\<rparr>) =
               [''move'', show_nat q, ''from'', show_nat s, ''to'', show_nat d]"
    by (simp add: render_move_def split_whitespace_unwords del: unwords.simps)
  with b show ?thesis
    by (simp add: move_from_str_def nth_unwrap_def parse_u64_r_def parse_u64_show_nat)
qed

theorem move_from_str_roundtrip_witness:
  "(150::nat) < 2 ^ 64 \<and> (2::nat) < 2 ^ 64 \<and> (9::nat) < 2 ^ 64 \<and>
   move_from_str (render_move \<lparr>quantity = 150, source = 2, destination = 9\<rparr>) =
     Inr \<lparr>quantity = 150, source = 2, destination = 9\<rparr>"
  using move_from_str_roundtrip [of 150 2 9] by simp

text \<open>C13: \<open>Move::from_str\<close> succeeds exactly when the line has at least six words and
  its second, fourth and sixth words parse as \<open>u64\<close>; the first, third and fifth words and
  any words after the sixth are never looked at.\<close>

theorem move_from_str_accepts:
  "move_from_str line = Inr (m :: move) \<longleftrightarrow>
     (let ws = split_whitespace line
      in 6 \<le> length ws \<and> parse_u64 (ws ! 1) = Some (quantity m) \<and>
         parse_u64 (ws ! 3) = Some (source m) \<and> parse_u64 (ws ! 5) = Some (destination m))"
  by (cases m)
     (auto simp: move_from_str_def nth_unwrap_def parse_u64_r_def rs_bind_def Let_def
           split: sum.splits option.splits if_splits)

subsection \<open>The answer and \<open>main\<close>\<close>

lemma get_topmost_crates_map:
  "get_topmost_crates st = (if [] \<in> set (stacks st) then Inl UnwrapNone else Inr (map last (stacks st)))"
proof -
  have "topmost_of ss = (if [] \<in> set ss then Inl UnwrapNone else Inr (map last ss))" for ss
    by (induction ss) auto
  then show ?thesis by (simp add: get_topmost_crates_def)
qed

text \<open>C14: \<open>get_topmost_crates\<close> panics exactly when some stack is empty, and otherwise
  returns the top crate of every stack, in stack order.\<close>

theorem get_topmost_crates_eq:
  "get_topmost_crates st = (if [] \<in> set (stacks st) then Inl UnwrapNone else Inr (map last (stacks st)))"
  by (rule get_topmost_crates_map)

lemma add_to_front_of_stack_length:
  "add_to_front_of_stack st k c = Inr st' \<Longrightarrow> length (stacks st') = length (stacks st)"
  by (auto simp: add_to_front_of_stack_def split: if_splits)

lemma add_cells_length:
  "add_cells st k cs = Inr st' \<Longrightarrow> length (stacks st') = length (stacks st)"
proof (induction cs arbitrary: st k)
  case (Cons c cs)
  then obtain st1 where
    a: "(if is_alphabetic c then add_to_front_of_stack st k c else Inr st) = Inr st1" and
    r: "add_cells st1 (Suc k) cs = Inr st'"
    by (auto simp: rs_bind_def split: sum.splits)
  from a have "length (stacks st1) = length (stacks st)"
    by (auto split: if_splits dest: add_to_front_of_stack_length)
  with Cons.IH [OF r] show ?case by simp
qed simp

lemma load_lines_length:
  "load_lines st ls = Inr st' \<Longrightarrow> length (stacks st') = length (stacks st)"
proof (induction ls arbitrary: st)
  case (Cons l ls)
  then obtain st1 where a: "load_line st l = Inr st1" and r: "load_lines st1 ls = Inr st'"
    by (auto simp: rs_bind_def split: sum.splits)
  from a have "length (stacks st1) = length (stacks st)"
    by (simp add: load_line_add_cells add_cells_length)
  with Cons.IH [OF r] show ?case by simp
qed simp

text \<open>C15: whatever the input, an answer of \<open>my_solution::main\<close> has exactly nine crates,
  one per stack of the hard-coded \<open>number_stacks = 9\<close>, all of them non-empty at the end.\<close>

theorem day05_main_nine_stacks:
  "day05_main input = Inr res \<Longrightarrow> length res = 9"
proof -
  assume ok: "day05_main input = Inr res"
  then obtain st1 st2 where
    l: "load_lines (state_new 9) (rs_lines (hd (split_on_pair nl nl input))) = Inr st1" and
    r: "run_moves st1 (rs_lines (split_on_pair nl nl input ! 1)) = Inr st2" and
    t: "get_topmost_crates st2 = Inr res"
    by (auto simp: day05_main_def Let_def rs_bind_def split: if_splits sum.splits)
  from load_lines_length [OF l] run_moves_crates [OF r]
  have "length (stacks st2) = 9" by (simp add: state_new_def)
  with t show ?thesis by (auto simp: get_topmost_crates_map split: if_splits)
qed

theorem day05_main_nine_stacks_witness:
  "day05_main nine_stack_example = Inr ''AJCDEFGHI'' \<and> length ''AJCDEFGHI'' = 9"
proof -
  define a where "a = ''[J]                               '' @ [nl] @ ''[A] [B] [C] [D] [E] [F] [G] [H] [I]'' @ [nl] @ '' 1   2   3   4   5   6   7   8   9 ''"
  define b where "b = ''move 1 from 1 to 2'' @ [nl]"
  define rows where "rows = [''[J]                               '', ''[A] [B] [C] [D] [E] [F] [G] [H] [I]'', '' 1   2   3   4   5   6   7   8   9 '']"
  define st1 where "st1 = \<lparr>stacks = [''AJ'', ''B'', ''C'', ''D'', ''E'', ''F'', ''G'', ''H'', ''I'']\<rparr>"
  define st2 where "st2 = \<lparr>stacks = [''A'', ''BJ'', ''C'', ''D'', ''E'', ''F'', ''G'', ''H'', ''I'']\<rparr>"
  define m where "m = \<lparr>quantity = 1, source = 1, destination = 2\<rparr>"
  have p: "split_on_pair nl nl nine_stack_example = [a, b]"
    by (simp add: nine_stack_example_def unlines_def nl_def a_def b_def)
  have l1: "rs_lines a = rows"
    by (simp add: rs_lines_def nl_def cr_def strip_cr_def a_def rows_def)
  have l2: "load_lines (state_new 9) rows = Inr st1"
    by (simp add: load_line_def state_new_def stack_eval_simps is_alphabetic_def numeral_eq_Suc rows_def st1_def)
  have l3: "rs_lines b = [''move 1 from 1 to 2'']"
    by (simp add: rs_lines_def nl_def cr_def strip_cr_def b_def)
  have mv: "move_from_str ''move 1 from 1 to 2'' = Inr m"
    by (simp add: move_from_str_def stack_eval_simps parse_eval_simps m_def)
  have pb: "perform_batch_move st1 m = Inr st2"
    by (simp add: perform_batch_move_def stack_eval_simps st1_def st2_def m_def)
  have tp: "get_topmost_crates st2 = Inr ''AJCDEFGHI''"
    by (simp add: get_topmost_crates_def st2_def)
  have main: "day05_main nine_stack_example = Inr ''AJCDEFGHI''"
    by (simp add: day05_main_def p l1 l2 l3 mv pb tp)
  show ?thesis using main day05_main_nine_stacks [OF main] by simp
qed

subsection \<open>Too few crates for nine stacks\<close>

lemma add_to_front_of_stack_crates:
  "add_to_front_of_stack st k c = Inr st' \<Longrightarrow> crates_of st' = crates_of st + {#c#}"
proof -
  assume a: "add_to_front_of_stack st k c = Inr st'"
  then have k: "k < length (stacks st)" and st': "stacks st' = (stacks st)[k := c # stacks st ! k]"
    by (auto simp: add_to_front_of_stack_def split: if_splits)
  from mset_concat_update [OF k, of "c # stacks st ! k"] st' show ?thesis
    by (simp add: crates_of_def)
qed

lemma add_cells_size:
  "add_cells st k cs = Inr st' \<Longrightarrow> size (crates_of st') \<le> size (crates_of st) + length (filter is_alphabetic cs)"
proof (induction cs arbitrary: st k)
  case (Cons c cs)
  then obtain st1 where a: "(if is_alphabetic c then add_to_front_of_stack st k c else Inr st) = Inr st1"
    and r: "add_cells st1 (Suc k) cs = Inr st'"
    by (auto simp: rs_bind_def split: sum.splits)
  from a have "size (crates_of st1) \<le> size (crates_of st) + (if is_alphabetic c then 1 else 0)"
    by (auto dest: add_to_front_of_stack_crates split: if_splits)
  with Cons.IH [OF r] show ?case by (simp split: if_splits)
qed simp

lemma cells_from_alphabetic:
  "length (filter P (cells_from d cs)) \<le> length (filter P cs)"
  by (induction d cs rule: cells_from.induct) (auto simp: le_SucI)

lemma load_lines_size:
  "load_lines st ls = Inr st' \<Longrightarrow>
     size (crates_of st') \<le> size (crates_of st) + length (filter is_alphabetic (concat ls))"
proof (induction ls arbitrary: st)
  case (Cons l ls)
  then obtain st1 where a: "load_line st l = Inr st1" and r: "load_lines st1 ls = Inr st'"
    by (auto simp: rs_bind_def split: sum.splits)
  from a have "add_cells st 0 (cells_from 1 l) = Inr st1"
    using load_chars_cells [of st 0 0 1 3 l] by (simp add: load_line_def)
  from add_cells_size [OF this] cells_from_alphabetic [of is_alphabetic 1 l]
  have "size (crates_of st1) \<le> size (crates_of st) + length (filter is_alphabetic l)" by simp
  with Cons.IH [OF r] show ?case by simp
qed simp

lemma length_le_concat: "[] \<notin> set xss \<Longrightarrow> length xss \<le> length (concat xss)"
proof (induction xss)
  case (Cons xs xss)
  then have "1 \<le> length xs" by (cases xs) auto
  with Cons show ?case by simp
qed simp

definition drawing_letters :: "string \<Rightarrow> nat" where
  "drawing_letters input = length (filter is_alphabetic (concat (rs_lines (hd (split_on_pair nl nl input)))))"

text \<open>C16: \<open>my_solution::main\<close> never answers an input whose drawing (the text before the
  first blank line) holds fewer than nine crate letters: with \<open>number_stacks\<close> hard-coded
  to 9, loading adds at most one crate a letter, the moves keep the crates, and
  \<open>get_topmost_crates\<close> needs a crate on each of the nine stacks. The puzzle's own
  three-stack example is such an input.\<close>

theorem day05_main_few_crates_panics:
  "drawing_letters input < 9 \<Longrightarrow> \<exists>e. day05_main input = Inl e"
proof (rule ccontr)
  assume few: "drawing_letters input < 9" and "\<nexists>e. day05_main input = Inl e"
  then obtain res where ok: "day05_main input = Inr res" by (cases "day05_main input") auto
  then obtain st1 st2 where
    l: "load_lines (state_new 9) (rs_lines (hd (split_on_pair nl nl input))) = Inr st1" and
    r: "run_moves st1 (rs_lines (split_on_pair nl nl input ! 1)) = Inr st2" and
    t: "get_topmost_crates st2 = Inr res"
    by (auto simp: day05_main_def Let_def rs_bind_def split: if_splits sum.splits)
  from load_lines_size [OF l] run_moves_crates [OF r]
  have "size (crates_of st2) \<le> drawing_letters input"
    by (simp add: drawing_letters_def state_new_def crates_of_def)
  moreover from load_lines_length [OF l] run_moves_crates [OF r]
  have "length (stacks st2) = 9" by (simp add: state_new_def)
  moreover from t have "[] \<notin> set (stacks st2)" by (simp add: get_topmost_crates_map split: if_splits)
  then have "length (stacks st2) \<le> size (crates_of st2)"
    by (simp add: crates_of_def length_le_concat)
  ultimately show False using few by simp
qed

theorem day05_main_few_crates_panics_witness:
  "drawing_letters puzzle_example = 6 \<and> (\<exists>e. day05_main puzzle_example = Inl e)"
proof -
  define a where "a = ''    [D]    '' @ [nl] @ ''[N] [C]    '' @ [nl] @ ''[Z] [M] [P]'' @ [nl] @ '' 1   2   3 ''"
  define b where "b = ''move 1 from 2 to 1'' @ [nl] @ ''move 3 from 1 to 3'' @ [nl] @ ''move 2 from 2 to 1'' @ [nl] @ ''move 1 from 1 to 2'' @ [nl]"
  have p: "split_on_pair nl nl puzzle_example = [a, b]"
    by (simp add: puzzle_example_def unlines_def nl_def a_def b_def)
  have l: "rs_lines a = [''    [D]    '', ''[N] [C]    '', ''[Z] [M] [P]'', '' 1   2   3 '']"
    by (simp add: rs_lines_def nl_def cr_def strip_cr_def a_def)
  have d: "drawing_letters puzzle_example = 6"
    by (simp add: drawing_letters_def p l is_alphabetic_def)
  with day05_main_few_crates_panics [of puzzle_example] show ?thesis by simp
qed

end
