(* ===== verification/Day02.thy ===== *)
theory Day02
  imports Prelude
begin

text \<open>
  Rock paper scissors scoring of day 2 (\<open>src/day_02/src/main.rs\<close>). \<open>Move\<close> and \<open>Outcome\<close>
  are datatypes with the source's constructors, \<open>Round\<close> a record. The two searches over
  \<open>ALL_MOVES\<close> end in \<open>unwrap\<close>, so they return \<open>rs_error + rps_move\<close>; the lemmas show
  they never panic. \<open>Round::from_str\<close> indexes characters 0 and 2 (a panic on a shorter
  line) and propagates the \<open>Err(())\<close> of the two \<open>TryFrom\<close> conversions as
  \<open>ConversionError\<close>. The lemmas show that the move chosen for an outcome produces that
  outcome, bound every score to 1..9 and the total to nine points a line, and characterise
  the accepted lines.
\<close>

datatype rps_move = Rock | Paper | Scissors

definition all_moves :: "rps_move list" where
  "all_moves = [Rock, Paper, Scissors]"

fun beats :: "rps_move \<Rightarrow> rps_move \<Rightarrow> bool" where
  "beats Rock Scissors = True"
| "beats Paper Rock = True"
| "beats Scissors Paper = True"
| "beats _ _ = False"

definition unwrap_opt :: "'a option \<Rightarrow> rs_error + 'a" where
  "unwrap_opt x = (case x of None \<Rightarrow> Inl UnwrapNone | Some v \<Rightarrow> Inr v)"

definition winning_move_against :: "rps_move \<Rightarrow> rs_error + rps_move" where
  "winning_move_against self = unwrap_opt (find (\<lambda>m. beats m self) all_moves)"

definition losing_move_against :: "rps_move \<Rightarrow> rs_error + rps_move" where
  "losing_move_against self = unwrap_opt (find (\<lambda>m. beats self m) all_moves)"

definition drawing_move_against :: "rps_move \<Rightarrow> rps_move" where
  "drawing_move_against self = self"

fun move_points :: "rps_move \<Rightarrow> nat" where
  "move_points Rock = 1"
| "move_points Paper = 2"
| "move_points Scissors = 3"

definition move_try_from :: "char \<Rightarrow> rs_error + rps_move" where
  "move_try_from c =
     (if c = CHR ''A'' then Inr Rock else if c = CHR ''B'' then Inr Paper
      else if c = CHR ''C'' then Inr Scissors else Inl ConversionError)"

record round =
  opponent :: rps_move
  player :: rps_move

datatype outcome = Win | Draw | Loss

definition outcome_try_from :: "char \<Rightarrow> rs_error + outcome" where
  "outcome_try_from c =
     (if c = CHR ''X'' then Inr Loss else if c = CHR ''Y'' then Inr Draw
      else if c = CHR ''Z'' then Inr Win else Inl ConversionError)"

fun outcome_points :: "outcome \<Rightarrow> nat" where
  "outcome_points Win = 6"
| "outcome_points Draw = 3"
| "outcome_points Loss = 0"

fun matching_move :: "outcome \<Rightarrow> rps_move \<Rightarrow> rs_error + rps_move" where
  "matching_move Win opp = winning_move_against opp"
| "matching_move Draw opp = Inr (drawing_move_against opp)"
| "matching_move Loss opp = losing_move_against opp"

definition round_outcome :: "round \<Rightarrow> outcome" where
  "round_outcome r =
     (if beats (player r) (opponent r) then Win
      else if beats (opponent r) (player r) then Loss else Draw)"

definition get_score :: "round \<Rightarrow> nat" where
  "get_score r = move_points (player r) + outcome_points (round_outcome r)"

text \<open>\<open>Round::from_str\<close>: \<open>chars[0]\<close> and \<open>chars[2]\<close> panic on a line shorter than three
  characters; the conversions' errors are returned with \<open>?\<close>.\<close>

definition round_from_str :: "string \<Rightarrow> rs_error + round" where
  "round_from_str s =
     (if length s < 3 then Inl IndexOutOfBounds
      else
        rs_bind (move_try_from (s ! 0)) (\<lambda>opp.
        rs_bind (outcome_try_from (s ! 2)) (\<lambda>oc.
        rs_bind (matching_move oc opp) (\<lambda>player_move.
        Inr \<lparr>opponent = opp, player = player_move\<rparr>))))"

text \<open>\<open>main\<close>: \<open>process_results\<close> sums the scores and stops at the first \<open>Err\<close>, which the
  final \<open>unwrap\<close> turns into a panic.\<close>

fun total_score :: "string list \<Rightarrow> rs_error + nat" where
  "total_score [] = Inr 0"
| "total_score (l # ls) =
     rs_bind (round_from_str l) (\<lambda>r. rs_bind (total_score ls) (\<lambda>t. Inr (get_score r + t)))"

definition day02_main :: "string \<Rightarrow> rs_error + nat" where
  "day02_main input = total_score (rs_lines input)"

subsection \<open>Lemmas\<close>

lemmas rps_simps = all_moves_def unwrap_opt_def winning_move_against_def losing_move_against_def
  drawing_move_against_def round_outcome_def get_score_def

lemma matching_move_outcome:
  "\<exists>p. matching_move oc opp = Inr p \<and> round_outcome \<lparr>opponent = opp, player = p\<rparr> = oc"
  by (cases oc; cases opp) (simp_all add: rps_simps)

text \<open>C17: for every opponent move and every requested outcome, \<open>Outcome::matching_move\<close>
  returns a move (the \<open>unwrap\<close> of the search never panics) and a round played with that
  move has exactly the requested outcome.\<close>

theorem matching_move_correct:
  "\<exists>p. matching_move oc opp = Inr p \<and> round_outcome \<lparr>opponent = opp, player = p\<rparr> = oc"
  by (rule matching_move_outcome)

text \<open>\<open>Round::beats\<close> is a strict tournament on the three moves: no move beats
  itself, of two different moves exactly one beats the other.\<close>

theorem beats_tournament:
  "\<not> beats a a \<and> (a \<noteq> b \<longrightarrow> beats a b \<noteq> beats b a)"
  by (cases a; cases b) simp_all

theorem beats_tournament_witness:
  "\<not> beats Rock Rock \<and> Rock \<noteq> Paper \<and> beats Rock Paper \<noteq> beats Paper Rock"
  using beats_tournament [of Rock Paper] by simp

lemma get_score_range: "1 \<le> get_score r \<and> get_score r \<le> 9"
  by (cases "player r"; cases "opponent r") (simp_all add: rps_simps)

text \<open>C19: every round scores between 1 and 9 points.\<close>

theorem get_score_bounds: "1 \<le> get_score r \<and> get_score r \<le> 9"
  by (rule get_score_range)

text \<open>C20: \<open>Round::from_str\<close> reads only characters 0 and 2 of a line: the separator and
  anything after the third character are never checked.\<close>

theorem round_from_str_ignores:
  "round_from_str (a # x # c # rest) = round_from_str [a, CHR '' '', c]"
  by (simp add: round_from_str_def)

text \<open>C21: a line whose third character decodes to an outcome is parsed into a round that
  has that outcome, and its score is the chosen shape's points plus the outcome's points.\<close>

theorem round_from_str_outcome:
  "outcome_try_from c = Inr oc \<Longrightarrow> round_from_str (a # x # c # rest) = Inr r \<Longrightarrow>
     round_outcome r = oc \<and> get_score r = move_points (player r) + outcome_points oc"
proof -
  assume oc: "outcome_try_from c = Inr oc" and r: "round_from_str (a # x # c # rest) = Inr r"
  from r oc obtain opp p where "move_try_from a = Inr opp" "matching_move oc opp = Inr p"
    and rr: "r = \<lparr>opponent = opp, player = p\<rparr>"
    by (auto simp: round_from_str_def rs_bind_def split: sum.splits)
  moreover from matching_move_outcome [of oc opp] obtain p' where
    "matching_move oc opp = Inr p'" "round_outcome \<lparr>opponent = opp, player = p'\<rparr> = oc" by blast
  ultimately show ?thesis by (simp add: get_score_def)
qed

theorem round_from_str_outcome_witness:
  "outcome_try_from CHR ''Y'' = Inr Draw \<and> round_from_str ''A Y'' = Inr \<lparr>opponent = Rock, player = Rock\<rparr> \<and>
   round_outcome \<lparr>opponent = Rock, player = Rock\<rparr> = Draw \<and>
   get_score \<lparr>opponent = Rock, player = Rock\<rparr> = move_points Rock + outcome_points Draw"
proof -
  have oc: "outcome_try_from CHR ''Y'' = Inr Draw" by (simp add: outcome_try_from_def)
  have r: "round_from_str ''A Y'' = Inr \<lparr>opponent = Rock, player = Rock\<rparr>"
    by (simp add: round_from_str_def move_try_from_def outcome_try_from_def rps_simps)
  from round_from_str_outcome [OF oc, of "CHR ''A''" "CHR '' ''" "[]"] r oc show ?thesis by simp
qed

text \<open>C22: \<open>main\<close>'s total is defined exactly when every line parses, and is then the sum
  of the rounds' scores; the first line that does not parse aborts the run.\<close>

theorem total_score_eq:
  "total_score ls = Inr t \<longleftrightarrow>
     (\<exists>rs. list_all2 (\<lambda>l r. round_from_str l = Inr r) ls rs \<and> t = sum_list (map get_score rs))"
proof (induction ls arbitrary: t)
  case Nil
  then show ?case by auto
next
  case (Cons l ls)
  show ?case
  proof
    assume "total_score (l # ls) = Inr t"
    then obtain r t' where r: "round_from_str l = Inr r" and t': "total_score ls = Inr t'"
      and t: "t = get_score r + t'"
      by (auto simp: rs_bind_def split: sum.splits)
    from Cons.IH [of t'] t' obtain rs where
      "list_all2 (\<lambda>l r. round_from_str l = Inr r) ls rs" "t' = sum_list (map get_score rs)" by blast
    with r t show "\<exists>rs. list_all2 (\<lambda>l r. round_from_str l = Inr r) (l # ls) rs \<and> t = sum_list (map get_score rs)"
      by (intro exI [of _ "r # rs"]) simp
  next
    assume "\<exists>rs. list_all2 (\<lambda>l r. round_from_str l = Inr r) (l # ls) rs \<and> t = sum_list (map get_score rs)"
    then obtain r rs where "round_from_str l = Inr r" "list_all2 (\<lambda>l r. round_from_str l = Inr r) ls rs"
      "t = get_score r + sum_list (map get_score rs)"
      by (auto simp: list_all2_Cons1)
    moreover from this Cons.IH have "total_score ls = Inr (sum_list (map get_score rs))" by blast
    ultimately show "total_score (l # ls) = Inr t" by simp
  qed
qed

text \<open>C23: the total of \<open>n\<close> rounds lies between \<open>n\<close> and \<open>9 n\<close>; it fits in the
  source's \<open>u64\<close> for any input of fewer than \<open>2^64 / 9\<close> lines.\<close>

theorem total_score_bounds:
  "total_score ls = Inr t \<Longrightarrow> length ls \<le> t \<and> t \<le> 9 * length ls"
proof (induction ls arbitrary: t)
  case (Cons l ls)
  then obtain r t' where "total_score ls = Inr t'" "t = get_score r + t'"
    by (auto simp: rs_bind_def split: sum.splits)
  with Cons.IH [of t'] get_score_range [of r] show ?case by simp
qed simp

theorem total_score_bounds_witness:
  "total_score [''A Y'', ''B X'', ''C Z''] = Inr 12 \<and> length [''A Y'', ''B X'', ''C Z''] \<le> 12 \<and>
   12 \<le> 9 * length [''A Y'', ''B X'', ''C Z'']"
proof -
  have t: "total_score [''A Y'', ''B X'', ''C Z''] = Inr 12"
    by (simp add: round_from_str_def move_try_from_def outcome_try_from_def rps_simps)
  from t total_score_bounds [OF t] show ?thesis by simp
qed

end
