(* ===== verification/Day04.thy ===== *)
theory Day04
  imports Prelude
begin

text \<open>
  Camp cleanup of day 4 (\<open>src/day_04/src/main.rs\<close>): pairs of section ranges, counted when
  one contains the other or when they overlap. The file has two implementations. The first,
  \<open>mine\<close> (never called), parses \<open>Assignment\<close>s of \<open>Range\<close> records with
  \<open>FromStr\<close> and counts \<open>has_overlapping_ranges\<close>. The second, \<open>main\<close>, parses each line
  into two \<open>RangeInclusive<u32>\<close> with \<open>collect_tuple\<close> and \<open>unwrap\<close> and counts
  \<open>overlaps_or_is_overlapped\<close> of the extension trait \<open>RangeInclusiveExt\<close>. Ranges are
  records of \<open>nat\<close> bounds (a \<open>RangeInclusive\<close> is the pair of its start and end); the
  meaning of a range is the set \<open>{lower..upper}\<close>. The lemmas relate both predicates of both
  implementations to that set semantics and to each other, give the parsers' round trips and
  the case where the two parsers disagree, and characterise \<open>main\<close>'s count.
\<close>

record range_rs =
  lower :: u64
  upper :: u64

text \<open>\<open>Range::from_str\<close>: \<open>split('-')\<close> always yields a first piece; a missing second
  piece panics in \<open>unwrap\<close>; pieces after the second are ignored.\<close>

definition range_from_str :: "string \<Rightarrow> rs_error + range_rs" where
  "range_from_str s =
     (let parts = split_on CHR ''-'' s in
      rs_bind (rs_bind (nth_unwrap parts 0) parse_u64_r) (\<lambda>lower.
      rs_bind (rs_bind (nth_unwrap parts 1) parse_u64_r) (\<lambda>upper.
      Inr \<lparr>lower = lower, upper = upper\<rparr>)))"

definition is_contained :: "range_rs \<Rightarrow> range_rs \<Rightarrow> bool" where
  "is_contained first second \<longleftrightarrow> lower first \<ge> lower second \<and> upper first \<le> upper second"

definition overlap :: "range_rs \<Rightarrow> range_rs \<Rightarrow> bool" where
  "overlap first second \<longleftrightarrow>
     lower first \<le> lower second \<and> upper first \<ge> lower second \<or>
     lower second \<le> lower first \<and> upper second \<ge> lower first"

record assignment =
  first_range :: range_rs
  second_range :: range_rs

definition has_contained_ranges :: "assignment \<Rightarrow> bool" where
  "has_contained_ranges a \<longleftrightarrow>
     is_contained (first_range a) (second_range a) \<or> is_contained (second_range a) (first_range a)"

definition has_overlapping_ranges :: "assignment \<Rightarrow> bool" where
  "has_overlapping_ranges a \<longleftrightarrow> overlap (first_range a) (second_range a)"

definition assignment_from_str :: "string \<Rightarrow> rs_error + assignment" where
  "assignment_from_str s =
     (let parts = split_on CHR '','' s in
      rs_bind (rs_bind (nth_unwrap parts 0) range_from_str) (\<lambda>first.
      rs_bind (rs_bind (nth_unwrap parts 1) range_from_str) (\<lambda>second.
      Inr \<lparr>first_range = first, second_range = second\<rparr>)))"

text \<open>\<open>mine\<close>: the value \<open>answer\<close> of \<open>process_results\<close> over the parsed lines: the
  count of the overlapping pairs, or the first \<open>Err\<close>, which \<open>mine\<close> prints with \<open>dbg!\<close>
  rather than panicking.\<close>

fun mine_count :: "string list \<Rightarrow> rs_error + nat" where
  "mine_count [] = Inr 0"
| "mine_count (l # ls) =
     rs_bind (assignment_from_str l) (\<lambda>a. rs_bind (mine_count ls) (\<lambda>n.
       Inr (if has_overlapping_ranges a then Suc n else n)))"

subsection \<open>\<open>RangeInclusiveExt\<close> on \<open>RangeInclusive\<close>\<close>

type_synonym range_incl = "nat \<times> nat"

definition ri_contains :: "range_incl \<Rightarrow> nat \<Rightarrow> bool" where
  "ri_contains r x \<longleftrightarrow> fst r \<le> x \<and> x \<le> snd r"

definition contains_range :: "range_incl \<Rightarrow> range_incl \<Rightarrow> bool" where
  "contains_range self other \<longleftrightarrow> ri_contains self (fst other) \<and> ri_contains self (snd other)"

definition contains_or_is_contained :: "range_incl \<Rightarrow> range_incl \<Rightarrow> bool" where
  "contains_or_is_contained self other \<longleftrightarrow> contains_range self other \<or> contains_range other self"

definition overlaps :: "range_incl \<Rightarrow> range_incl \<Rightarrow> bool" where
  "overlaps self other \<longleftrightarrow> ri_contains other (fst self) \<or> ri_contains other (snd self)"

definition overlaps_or_is_overlapped :: "range_incl \<Rightarrow> range_incl \<Rightarrow> bool" where
  "overlaps_or_is_overlapped self other \<longleftrightarrow> overlaps self other \<or> overlaps other self"

text \<open>\<open>main\<close>: each part \<open>value.parse::<u32>().unwrap()\<close>, pairs by \<open>collect_tuple\<close>
  with \<open>unwrap\<close>, then the count of the overlapping pairs.\<close>

definition parse_range_incl :: "string \<Rightarrow> rs_error + range_incl" where
  "parse_range_incl part = collect_pair parse_u32_r (split_on CHR ''-'' part)"

definition parse_line_pair :: "string \<Rightarrow> rs_error + (range_incl \<times> range_incl)" where
  "parse_line_pair line = collect_pair parse_range_incl (split_on CHR '','' line)"

fun main_count :: "string list \<Rightarrow> rs_error + nat" where
  "main_count [] = Inr 0"
| "main_count (l # ls) =
     rs_bind (parse_line_pair l) (\<lambda>(a, b). rs_bind (main_count ls) (\<lambda>n.
       Inr (if overlaps_or_is_overlapped a b then Suc n else n)))"

definition day04_main :: "string \<Rightarrow> rs_error + nat" where
  "day04_main input = main_count (rs_lines input)"

subsection \<open>Meaning of a range\<close>

definition sections :: "range_rs \<Rightarrow> nat set" where
  "sections r = {lower r..upper r}"

definition ri_sections :: "range_incl \<Rightarrow> nat set" where
  "ri_sections r = {fst r..snd r}"

definition render_range :: "nat \<Rightarrow> nat \<Rightarrow> string" where
  "render_range l u = show_nat l @ CHR ''-'' # show_nat u"

definition render_line :: "nat \<times> nat \<times> nat \<times> nat \<Rightarrow> string" where
  "render_line t = (case t of (a, b, c, d) \<Rightarrow> render_range a b @ CHR '','' # render_range c d)"

subsection \<open>Lemmas\<close>

lemma sections_disjoint_iff:
  "a \<le> b \<Longrightarrow> c \<le> d \<Longrightarrow> {a..b} \<inter> {c..d} \<noteq> {} \<longleftrightarrow> max a c \<le> min b (d :: nat)"
  by auto

lemma overlap_sections:
  "lower r \<le> upper r \<Longrightarrow> lower s \<le> upper s \<Longrightarrow> overlap r s \<longleftrightarrow> sections r \<inter> sections s \<noteq> {}"
  by (auto simp: overlap_def sections_def)

text \<open>C24: on well-formed ranges (lower bound at most upper bound), \<open>Range::overlap\<close> holds
  exactly when the two sets of sections share a section.\<close>

theorem overlap_iff_sections:
  "lower r \<le> upper r \<Longrightarrow> lower s \<le> upper s \<Longrightarrow> overlap r s \<longleftrightarrow> sections r \<inter> sections s \<noteq> {}"
  by (rule overlap_sections)

theorem overlap_iff_sections_witness:
  "(3::nat) \<le> 7 \<and> (6::nat) \<le> 9 \<and> overlap \<lparr>lower = 3, upper = 7\<rparr> \<lparr>lower = 6, upper = 9\<rparr> \<and>
   sections \<lparr>lower = 3, upper = 7\<rparr> \<inter> sections \<lparr>lower = 6, upper = 9\<rparr> \<noteq> {}"
  using overlap_iff_sections [of "\<lparr>lower = 3, upper = 7\<rparr>" "\<lparr>lower = 6, upper = 9\<rparr>"]
  by (simp add: overlap_def)

lemma overlaps_or_is_overlapped_sections:
  "fst r \<le> snd r \<Longrightarrow> fst s \<le> snd s \<Longrightarrow> overlaps_or_is_overlapped r s \<longleftrightarrow> ri_sections r \<inter> ri_sections s \<noteq> {}"
  by (cases r; cases s) (auto simp: overlaps_or_is_overlapped_def overlaps_def ri_contains_def ri_sections_def)

text \<open>C25: on well-formed ranges \<open>overlaps_or_is_overlapped\<close>, the predicate \<open>main\<close>
  counts, holds exactly when the two ranges share a section.\<close>

theorem overlaps_or_is_overlapped_iff:
  "fst r \<le> snd r \<Longrightarrow> fst s \<le> snd s \<Longrightarrow> overlaps_or_is_overlapped r s \<longleftrightarrow> ri_sections r \<inter> ri_sections s \<noteq> {}"
  by (rule overlaps_or_is_overlapped_sections)

theorem overlaps_or_is_overlapped_iff_witness:
  "fst (2::nat, 8::nat) \<le> snd (2::nat, 8::nat) \<and> fst (3::nat, 7::nat) \<le> snd (3::nat, 7::nat) \<and>
   overlaps_or_is_overlapped (2, 8) (3, 7) \<and> ri_sections (2, 8) \<inter> ri_sections (3, 7) \<noteq> {}"
  using overlaps_or_is_overlapped_iff [of "(2, 8)" "(3, 7)"]
  by (simp add: overlaps_or_is_overlapped_def overlaps_def ri_contains_def)

text \<open>C26: on well-formed ranges \<open>Assignment::has_contained_ranges\<close> holds exactly when
  the sections of one range are a subset of the other's, and agrees with
  \<open>contains_or_is_contained\<close> of the extension trait.\<close>

theorem has_contained_ranges_iff:
  "lower (first_range x) \<le> upper (first_range x) \<Longrightarrow> lower (second_range x) \<le> upper (second_range x) \<Longrightarrow>
     (has_contained_ranges x \<longleftrightarrow>
        sections (first_range x) \<subseteq> sections (second_range x) \<or> sections (second_range x) \<subseteq> sections (first_range x)) \<and>
     (has_contained_ranges x \<longleftrightarrow>
        contains_or_is_contained (lower (first_range x), upper (first_range x))
                                 (lower (second_range x), upper (second_range x)))"
  by (auto simp: has_contained_ranges_def is_contained_def sections_def contains_or_is_contained_def
                 contains_range_def ri_contains_def)

theorem has_contained_ranges_iff_witness:
  "(2::nat) \<le> 8 \<and> (3::nat) \<le> 7 \<and>
   has_contained_ranges \<lparr>first_range = \<lparr>lower = 2, upper = 8\<rparr>, second_range = \<lparr>lower = 3, upper = 7\<rparr>\<rparr> \<and>
   sections \<lparr>lower = 3, upper = 7\<rparr> \<subseteq> sections \<lparr>lower = 2, upper = 8\<rparr> \<and>
   contains_or_is_contained (2, 8) (3, 7)"
  using has_contained_ranges_iff [of "\<lparr>first_range = \<lparr>lower = 2, upper = 8\<rparr>, second_range = \<lparr>lower = 3, upper = 7\<rparr>\<rparr>"]
  by (simp add: has_contained_ranges_def is_contained_def sections_def)

text \<open>C27: the two overlap tests of the file agree except on reversed ranges (lower bound
  above the upper bound), which no code rejects. \<open>Range::overlap\<close> implies \<open>main\<close>'s
  \<open>overlaps_or_is_overlapped\<close>; when only the latter holds, one of the ranges is reversed and
  the two ranges share no section, so it is \<open>main\<close>'s test that counts a line wrongly. The
  ranges \<open>1-0\<close> and \<open>0-0\<close> are such a case.\<close>

theorem overlap_tests_disagree_only_on_reversed:
  "(overlap r s \<longrightarrow> overlaps_or_is_overlapped (lower r, upper r) (lower s, upper s)) \<and>
   (overlaps_or_is_overlapped (lower r, upper r) (lower s, upper s) \<and> \<not> overlap r s \<longrightarrow>
      (upper r < lower r \<or> upper s < lower s) \<and> sections r \<inter> sections s = {})"
  by (auto simp: overlap_def overlaps_or_is_overlapped_def overlaps_def ri_contains_def sections_def)

theorem overlap_tests_disagree_only_on_reversed_witness:
  "overlaps_or_is_overlapped (1, 0) (0, 0) \<and> \<not> overlap \<lparr>lower = 1, upper = 0\<rparr> \<lparr>lower = 0, upper = 0\<rparr> \<and>
   sections \<lparr>lower = 1, upper = 0\<rparr> \<inter> sections \<lparr>lower = 0, upper = 0\<rparr> = {}"
proof -
  have h: "overlaps_or_is_overlapped (1, 0) (0, 0) \<and> \<not> overlap \<lparr>lower = 1, upper = 0\<rparr> \<lparr>lower = 0, upper = 0\<rparr>"
    by (simp add: overlaps_or_is_overlapped_def overlaps_def ri_contains_def overlap_def)
  from h overlap_tests_disagree_only_on_reversed [of "\<lparr>lower = 1, upper = 0\<rparr>" "\<lparr>lower = 0, upper = 0\<rparr>"]
  show ?thesis by simp
qed

lemma dash_not_in_show_nat [simp]: "CHR ''-'' \<notin> set (show_nat n)"
  by (rule not_digit_show_nat) (simp add: is_digit_def)

lemma comma_not_in_show_nat [simp]: "CHR '','' \<notin> set (show_nat n)"
  by (rule not_digit_show_nat) (simp add: is_digit_def)

lemma split_on_render_range: "split_on CHR ''-'' (render_range l u @ rest) = show_nat l # split_on CHR ''-'' (show_nat u @ rest)"
  by (simp add: render_range_def split_on_append_sep)

lemma split_on_show_nat_sep:
  "c \<notin> set (show_nat n) \<Longrightarrow> split_on c (show_nat n @ c # rest) = show_nat n # split_on c rest"
  by (rule split_on_append_sep)

lemma comma_not_in_render_range [simp]: "CHR '','' \<notin> set (render_range l u)"
  by (simp add: render_range_def)

lemma split_on_render_line:
  "split_on CHR '','' (render_line (a, b, c, d)) = [render_range a b, render_range c d]"
  by (simp add: render_line_def split_on_append_sep split_on_no_sep)

lemma range_from_str_render:
  "l < 2 ^ 64 \<Longrightarrow> u < 2 ^ 64 \<Longrightarrow> range_from_str (render_range l u) = Inr \<lparr>lower = l, upper = u\<rparr>"
  using split_on_render_range [of l u "[]"]
  by (simp add: range_from_str_def nth_unwrap_def parse_u64_r_def parse_u64_show_nat split_on_no_sep)

lemma parse_range_incl_render:
  "l < 2 ^ 32 \<Longrightarrow> u < 2 ^ 32 \<Longrightarrow> parse_range_incl (render_range l u) = Inr (l, u)"
  using split_on_render_range [of l u "[]"]
  by (simp add: parse_range_incl_def collect_pair_def parse_u32_r_def parse_u32_show_nat split_on_no_sep)

lemma line_parsers_render:
  "a < 2 ^ 32 \<Longrightarrow> b < 2 ^ 32 \<Longrightarrow> c < 2 ^ 32 \<Longrightarrow> d < 2 ^ 32 \<Longrightarrow>
     assignment_from_str (render_line (a, b, c, d)) =
       Inr \<lparr>first_range = \<lparr>lower = a, upper = b\<rparr>, second_range = \<lparr>lower = c, upper = d\<rparr>\<rparr> \<and>
     parse_line_pair (render_line (a, b, c, d)) = Inr ((a, b), (c, d))"
proof -
  assume "a < 2 ^ 32" "b < 2 ^ 32" "c < 2 ^ 32" "d < 2 ^ 32"
  moreover have "(2::nat) ^ 32 < 2 ^ 64" by simp
  ultimately show ?thesis
    by (simp add: assignment_from_str_def parse_line_pair_def split_on_render_line nth_unwrap_def
                  collect_pair_def range_from_str_render parse_range_incl_render)
qed

text \<open>C28: both parsers of the file read a printed line \<open>a-b,c-d\<close> back: \<open>Assignment::from_str\<close>
  (for \<open>u64\<close> bounds) and \<open>main\<close>'s \<open>split\<close>/\<open>collect_tuple\<close> chain (for \<open>u32\<close> bounds).\<close>

theorem line_parsers_roundtrip:
  "a < 2 ^ 32 \<Longrightarrow> b < 2 ^ 32 \<Longrightarrow> c < 2 ^ 32 \<Longrightarrow> d < 2 ^ 32 \<Longrightarrow>
     assignment_from_str (render_line (a, b, c, d)) =
       Inr \<lparr>first_range = \<lparr>lower = a, upper = b\<rparr>, second_range = \<lparr>lower = c, upper = d\<rparr>\<rparr> \<and>
     parse_line_pair (render_line (a, b, c, d)) = Inr ((a, b), (c, d))"
  by (rule line_parsers_render)

theorem line_parsers_roundtrip_witness:
  "(2::nat) < 2 ^ 32 \<and> (4::nat) < 2 ^ 32 \<and> (6::nat) < 2 ^ 32 \<and> (8::nat) < 2 ^ 32 \<and>
   assignment_from_str (render_line (2, 4, 6, 8)) =
     Inr \<lparr>first_range = \<lparr>lower = 2, upper = 4\<rparr>, second_range = \<lparr>lower = 6, upper = 8\<rparr>\<rparr> \<and>
   parse_line_pair (render_line (2, 4, 6, 8)) = Inr ((2, 4), (6, 8))"
  using line_parsers_roundtrip [of 2 4 6 8] by simp

definition wf_line :: "nat \<times> nat \<times> nat \<times> nat \<Rightarrow> bool" where
  "wf_line t = (case t of (a, b, c, d) \<Rightarrow> a \<le> b \<and> c \<le> d \<and> b < 2 ^ 32 \<and> d < 2 ^ 32)"

definition lines_overlap :: "nat \<times> nat \<times> nat \<times> nat \<Rightarrow> bool" where
  "lines_overlap t = (case t of (a, b, c, d) \<Rightarrow> {a..b} \<inter> {c..d} \<noteq> {})"

text \<open>C29: on any input of printed, well-formed lines whose bounds fit in \<open>u32\<close>, the two
  implementations of the file (\<open>mine\<close> and \<open>main\<close>) compute the same count: the number of
  lines whose two ranges share a section.\<close>

theorem mine_main_agree:
  "\<forall>t\<in>set ts. wf_line t \<Longrightarrow>
     mine_count (map render_line ts) = Inr (length (filter lines_overlap ts)) \<and>
     main_count (map render_line ts) = Inr (length (filter lines_overlap ts))"
proof (induction ts)
  case (Cons t ts)
  obtain a b c d where t: "t = (a, b, c, d)" by (cases t) auto
  from Cons.prems t have w: "a \<le> b" "c \<le> d" "b < 2 ^ 32" "d < 2 ^ 32" by (auto simp: wf_line_def)
  then have bounds: "a < 2 ^ 32" "c < 2 ^ 32" by linarith+
  have ov: "overlap \<lparr>lower = a, upper = b\<rparr> \<lparr>lower = c, upper = d\<rparr> \<longleftrightarrow> lines_overlap t"
    using overlap_sections [of "\<lparr>lower = a, upper = b\<rparr>" "\<lparr>lower = c, upper = d\<rparr>"] w t
    by (simp add: sections_def lines_overlap_def conj_commute)
  have ov2: "overlaps_or_is_overlapped (a, b) (c, d) \<longleftrightarrow> lines_overlap t"
    using overlaps_or_is_overlapped_sections [of "(a, b)" "(c, d)"] w t
    by (simp add: ri_sections_def lines_overlap_def conj_commute)
  from Cons.IH Cons.prems have IH: "mine_count (map render_line ts) = Inr (length (filter lines_overlap ts))"
    "main_count (map render_line ts) = Inr (length (filter lines_overlap ts))" by simp_all
  from line_parsers_render [OF bounds(1) w(3) bounds(2) w(4)] IH ov ov2 t show ?case
    by (simp add: has_overlapping_ranges_def)
qed simp

theorem mine_main_agree_witness:
  "wf_line (2, 4, 6, 8) \<and> wf_line (5, 7, 7, 9) \<and> wf_line (2, 8, 3, 7) \<and>
   mine_count (map render_line [(2, 4, 6, 8), (5, 7, 7, 9), (2, 8, 3, 7)]) = Inr 2 \<and>
   main_count (map render_line [(2, 4, 6, 8), (5, 7, 7, 9), (2, 8, 3, 7)]) = Inr 2"
proof -
  have w: "\<forall>t\<in>set [(2::nat, 4::nat, 6::nat, 8::nat), (5, 7, 7, 9), (2, 8, 3, 7)]. wf_line t"
    by (simp add: wf_line_def)
  have n: "length (filter lines_overlap [(2::nat, 4::nat, 6::nat, 8::nat), (5, 7, 7, 9), (2, 8, 3, 7)]) = 2"
    by (simp add: lines_overlap_def)
  show ?thesis using w mine_main_agree [OF w] n by simp
qed

text \<open>C30: the two parsers disagree on a range with a third bound: \<open>Range::from_str\<close>
  ignores everything after the second number, while \<open>main\<close>'s \<open>collect_tuple\<close> finds
  a third element and panics.\<close>

theorem range_parsers_disagree:
  "l < 2 ^ 32 \<Longrightarrow> u < 2 ^ 32 \<Longrightarrow>
     range_from_str (render_range l u @ CHR ''-'' # rest) = Inr \<lparr>lower = l, upper = u\<rparr> \<and>
     (\<exists>e. parse_range_incl (render_range l u @ CHR ''-'' # rest) = Inl e)"
proof -
  assume b: "l < 2 ^ 32" "u < 2 ^ 32"
  have sp: "split_on CHR ''-'' (render_range l u @ CHR ''-'' # rest) =
              show_nat l # show_nat u # split_on CHR ''-'' rest"
    by (simp add: split_on_render_range split_on_append_sep)
  have "(2::nat) ^ 32 < 2 ^ 64" by simp
  with b have "range_from_str (render_range l u @ CHR ''-'' # rest) = Inr \<lparr>lower = l, upper = u\<rparr>"
    by (simp add: range_from_str_def sp nth_unwrap_def parse_u64_r_def parse_u64_show_nat)
  moreover have "\<exists>e. parse_range_incl (render_range l u @ CHR ''-'' # rest) = Inl e"
    using b by (cases "split_on CHR ''-'' rest")
      (auto simp: parse_range_incl_def sp collect_pair_def parse_u32_r_def parse_u32_show_nat rs_bind_def
            split: sum.splits option.splits)
  ultimately show ?thesis by blast
qed

theorem range_parsers_disagree_witness:
  "(1::nat) < 2 ^ 32 \<and> (2::nat) < 2 ^ 32 \<and>
   range_from_str (render_range 1 2 @ ''-3'') = Inr \<lparr>lower = 1, upper = 2\<rparr> \<and>
   (\<exists>e. parse_range_incl (render_range 1 2 @ ''-3'') = Inl e)"
  using range_parsers_disagree [of 1 2 "''3''"] by simp

end
