(* ===== verification/Day03.thy ===== *)
theory Day03
  imports Prelude
begin

text \<open>
  Rucksack reorganisation of day 3 (\<open>src/day_03/src/main.rs\<close>). \<open>Item\<close> wraps a \<open>u8\<close>,
  modelled as an \<open>8 word\<close>; \<open>From<u8>\<close> panics outside \<open>a..=z\<close> and \<open>A..=Z\<close>, and
  \<open>priority\<close> subtracts \<open>b'a'\<close> or \<open>b'A'\<close> in \<open>u8\<close> arithmetic, which is written as word
  subtraction so that a wrap-around would show. A rucksack is the \<open>HashSet<Item>\<close> of its
  line, modelled as an \<open>item set\<close>; \<open>main\<close> groups the rucksacks by three with
  \<open>tuples()\<close> and takes the first item of the first rucksack, in the set's iteration order,
  that the other two contain. That order is unspecified, so it is a parameter of the model
  (\<open>enum\<close>, a function listing a set). The lemmas show that every item has a priority in
  1..52 without wrap-around, that priorities identify items, that the group's value does not
  depend on the iteration order when the three rucksacks share exactly one item, and that it
  does when they share more; \<open>solve_for_group\<close> is characterised as well.
\<close>

datatype item = Item "8 word"

definition is_item_byte :: "8 word \<Rightarrow> bool" where
  "is_item_byte v \<longleftrightarrow> (97 \<le> unat v \<and> unat v \<le> 122) \<or> (65 \<le> unat v \<and> unat v \<le> 90)"

text \<open>\<open>impl From<u8> for Item\<close>: \<open>b'a'..=b'z' | b'A'..=b'Z'\<close>, otherwise \<open>panic!()\<close>.\<close>

definition item_from :: "8 word \<Rightarrow> rs_error + item" where
  "item_from value =
     (if (97 \<le> unat value \<and> unat value \<le> 122) \<or> (65 \<le> unat value \<and> unat value \<le> 90)
      then Inr (Item value) else Inl ExplicitPanic)"

text \<open>\<open>Item::priority\<close>: \<open>1 + (self.0 - b'a') as u64\<close> or \<open>27 + (self.0 - b'A') as u64\<close>
  with the subtraction in \<open>u8\<close>, otherwise \<open>panic!()\<close>.\<close>

fun priority :: "item \<Rightarrow> rs_error + nat" where
  "priority (Item v) =
     (if 97 \<le> unat v \<and> unat v \<le> 122 then Inr (1 + unat (v - 97))
      else if 65 \<le> unat v \<and> unat v \<le> 90 then Inr (27 + unat (v - 65))
      else Inl ExplicitPanic)"

definition byte_of :: "char \<Rightarrow> 8 word" where
  "byte_of c = of_nat (of_char c)"

text \<open>\<open>solve_for_group\<close>: \<open>group[0]\<close>, \<open>group[1]\<close>, \<open>group[2]\<close> (a panic on a shorter
  slice), the sets of characters of the first two lines, and the first character of the
  third line in both, or \<open>panic!()\<close>.\<close>

definition solve_for_group :: "string list \<Rightarrow> rs_error + char" where
  "solve_for_group grp =
     (if length grp < 3 then Inl IndexOutOfBounds
      else
        (let first_set = set (grp ! 0); second_set = set (grp ! 1)
         in case find (\<lambda>c. c \<in> first_set \<and> c \<in> second_set) (grp ! 2) of
              None \<Rightarrow> Inl ExplicitPanic
            | Some c \<Rightarrow> Inr c))"

text \<open>A line as its \<open>HashSet<Item>\<close>: \<open>line.bytes().map(Item::try_from)\<close>, where
  \<open>try_from\<close> goes through \<open>From\<close> and so panics at the first byte that is not a letter.\<close>

fun sack_items :: "string \<Rightarrow> rs_error + item list" where
  "sack_items [] = Inr []"
| "sack_items (c # cs) = rs_bind (item_from (byte_of c)) (\<lambda>i. rs_bind (sack_items cs) (\<lambda>is. Inr (i # is)))"

definition sack_of_line :: "string \<Rightarrow> rs_error + item set" where
  "sack_of_line line = rs_bind (sack_items line) (\<lambda>is. Inr (set is))"

fun sacks_of_lines :: "string list \<Rightarrow> rs_error + item set list" where
  "sacks_of_lines [] = Inr []"
| "sacks_of_lines (l # ls) = rs_bind (sack_of_line l) (\<lambda>s. rs_bind (sacks_of_lines ls) (\<lambda>ss. Inr (s # ss)))"

text \<open>\<open>Itertools::tuples\<close> for triples: consecutive groups of three, an incomplete group
  at the end dropped.\<close>

fun tuples3 :: "'a list \<Rightarrow> ('a \<times> 'a \<times> 'a) list" where
  "tuples3 (x # y # z # rest) = (x, y, z) # tuples3 rest"
| "tuples3 _ = []"

text \<open>One group of \<open>main\<close>: \<open>a.iter().find(|i| b.contains(i) && c.contains(i))\<close>, its
  priority, \<open>unwrap_or_default\<close>; \<open>order\<close> is the iteration order of \<open>a\<close>.\<close>

definition group_value :: "item list \<Rightarrow> item set \<Rightarrow> item set \<Rightarrow> rs_error + nat" where
  "group_value order b c =
     (case find (\<lambda>i. i \<in> b \<and> i \<in> c) order of None \<Rightarrow> Inr 0 | Some i \<Rightarrow> priority i)"

fun sum_groups :: "(item set \<Rightarrow> item list) \<Rightarrow> (item set \<times> item set \<times> item set) list \<Rightarrow> rs_error + nat" where
  "sum_groups enum [] = Inr 0"
| "sum_groups enum ((a, b, c) # gs) =
     rs_bind (group_value (enum a) b c) (\<lambda>v. rs_bind (sum_groups enum gs) (\<lambda>s. Inr (v + s)))"

definition day03_main :: "(item set \<Rightarrow> item list) \<Rightarrow> string \<Rightarrow> rs_error + nat" where
  "day03_main enum input = rs_bind (sacks_of_lines (rs_lines input)) (\<lambda>sacks. sum_groups enum (tuples3 sacks))"

subsection \<open>Lemmas\<close>

lemma unat_sub_le_8:
  fixes v :: "8 word"
  shows "unat w \<le> unat v \<Longrightarrow> unat (v - w) = unat v - unat w"
  by (simp add: unat_sub word_le_nat_alt)

lemma priority_Item [simp]:
  "priority (Item v) =
     (if 97 \<le> unat v \<and> unat v \<le> 122 then Inr (unat v - 96)
      else if 65 \<le> unat v \<and> unat v \<le> 90 then Inr (unat v - 38)
      else Inl ExplicitPanic)"
proof -
  have "97 \<le> unat v \<Longrightarrow> unat (v - 97) = unat v - 97" "65 \<le> unat v \<Longrightarrow> unat (v - 65) = unat v - 65"
    using unat_sub_le_8 [of 97 v] unat_sub_le_8 [of 65 v] by simp_all
  then show ?thesis by auto
qed

declare priority.simps [simp del]

lemma item_from_eq_Inr: "item_from v = Inr i \<longleftrightarrow> is_item_byte v \<and> i = Item v"
  by (auto simp: item_from_def is_item_byte_def)

lemma priority_Inr_iff:
  "priority i = Inr p \<longleftrightarrow>
     (\<exists>v. i = Item v \<and> is_item_byte v \<and> p = (if 97 \<le> unat v then unat v - 96 else unat v - 38))"
  by (cases i) (auto simp: is_item_byte_def)

lemma priority_Inr_inj:
  assumes "priority i = Inr p" and "priority j = Inr p"
  shows "i = j"
proof -
  from assms obtain v w where i: "i = Item v" and j: "j = Item w" and
    v: "is_item_byte v" and w: "is_item_byte w" and
    pv: "p = (if 97 \<le> unat v then unat v - 96 else unat v - 38)" and
    pw: "p = (if 97 \<le> unat w then unat w - 96 else unat w - 38)"
    unfolding priority_Inr_iff by blast
  from v w pv pw have "unat v = unat w"
    unfolding is_item_byte_def by (auto split: if_splits)
  then show ?thesis by (simp add: i j word_unat_eq_iff)
qed

lemma find_unique:
  "x \<in> set xs \<Longrightarrow> P x \<Longrightarrow> \<forall>y\<in>set xs. P y \<longrightarrow> y = x \<Longrightarrow> find P xs = Some x"
proof (induction xs)
  case (Cons a xs)
  show ?case
  proof (cases "P a")
    case True
    with Cons.prems(3) have "a = x" by (meson list.set_intros(1))
    with True show ?thesis by simp
  next
    case False
    with Cons.prems(2) have "a \<noteq> x" by blast
    with Cons.prems(1) have "x \<in> set xs" by simp
    moreover from Cons.prems(3) have "\<forall>y\<in>set xs. P y \<longrightarrow> y = x" by (meson list.set_intros(2))
    ultimately have "find P xs = Some x" using Cons.IH Cons.prems(2) by blast
    with False show ?thesis by simp
  qed
qed simp

lemma find_common_unique:
  "set order = a \<Longrightarrow> a \<inter> b \<inter> c = {x} \<Longrightarrow> find (\<lambda>i. i \<in> b \<and> i \<in> c) order = Some x"
  by (rule find_unique) auto

lemma find_common_none:
  "set order = a \<Longrightarrow> a \<inter> b \<inter> c = {} \<Longrightarrow> find (\<lambda>i. i \<in> b \<and> i \<in> c) order = None"
  by (auto simp: find_None_iff)

lemma solve_for_group_find:
  "solve_for_group g = Inr c \<longleftrightarrow>
     3 \<le> length g \<and> find (\<lambda>c. c \<in> set (g ! 0) \<and> c \<in> set (g ! 1)) (g ! 2) = Some c"
  by (auto simp: solve_for_group_def split: option.splits)

text \<open>C31: every item \<open>Item::from\<close> accepts has a priority: \<open>a..z\<close> are 1..26 and \<open>A..Z\<close>
  27..52; the \<open>u8\<close> subtraction never wraps, so the priority is the byte's value minus 96
  or minus 38.\<close>

theorem priority_bounds:
  "item_from v = Inr i \<Longrightarrow>
     \<exists>p. priority i = Inr p \<and> 1 \<le> p \<and> p \<le> 52 \<and> (p \<le> 26 \<longleftrightarrow> 97 \<le> unat v) \<and>
         p = (if 97 \<le> unat v then unat v - 96 else unat v - 38)"
  by (auto simp: item_from_eq_Inr priority_Item is_item_byte_def)

theorem priority_bounds_witness:
  "item_from 98 = Inr (Item 98) \<and> priority (Item 98) = Inr 2 \<and> 1 \<le> (2::nat) \<and> (2::nat) \<le> 52"
  using priority_bounds [of 98 "Item 98"] by (simp add: item_from_def priority_Item)

text \<open>C32: the priority identifies the item: two items with the same priority are equal.\<close>

theorem priority_injective: "priority i = Inr p \<Longrightarrow> priority j = Inr p \<Longrightarrow> i = j"
  by (rule priority_Inr_inj)

theorem priority_injective_witness: "priority (Item 65) = Inr 27 \<and> Item 65 = Item 65"
  using priority_injective [of "Item 65" 27 "Item 65"] by (simp add: priority_Item)


text \<open>C33: when the three rucksacks of a group share exactly one item, the group's value is
  that item's priority, whatever order the first rucksack's \<open>HashSet\<close> is iterated in.\<close>

theorem group_value_unique_badge:
  "set order = a \<Longrightarrow> a \<inter> b \<inter> c = {x} \<Longrightarrow> group_value order b c = priority x"
  by (simp add: group_value_def find_common_unique)

theorem group_value_unique_badge_witness:
  "set [Item 97, Item 66] = {Item 97, Item 66} \<and>
   {Item 97, Item 66} \<inter> {Item 66} \<inter> {Item 66, Item 67} = {Item 66} \<and>
   group_value [Item 97, Item 66] {Item 66} {Item 66, Item 67} = Inr 28"
proof -
  have e: "set [Item 97, Item 66] = {Item 97, Item 66}" by simp
  have i: "{Item 97, Item 66} \<inter> {Item 66} \<inter> {Item 66, Item 67} = {Item 66}" by auto
  from group_value_unique_badge [OF e i] e i show ?thesis by simp
qed

text \<open>C34: when two different items are common to a group, the value depends on the
  \<open>HashSet\<close>'s iteration order: listing them in the two orders gives two different
  values, since different items have different priorities.\<close>

theorem group_value_order_dependent:
  "x \<noteq> y \<Longrightarrow> x \<in> b \<inter> c \<Longrightarrow> y \<in> b \<inter> c \<Longrightarrow> priority x = Inr p \<Longrightarrow> priority y = Inr q \<Longrightarrow>
     group_value [x, y] b c = Inr p \<and> group_value [y, x] b c = Inr q \<and> p \<noteq> q"
  using priority_Inr_inj [of x p y] by (auto simp: group_value_def)

theorem group_value_order_dependent_witness:
  "Item 97 \<noteq> Item 98 \<and> group_value [Item 97, Item 98] {Item 97, Item 98} {Item 97, Item 98} = Inr 1 \<and>
   group_value [Item 98, Item 97] {Item 97, Item 98} {Item 97, Item 98} = Inr 2"
proof -
  have "priority (Item 97) = Inr 1" "priority (Item 98) = Inr 2" by simp_all
  from group_value_order_dependent [OF _ _ _ this, of "{Item 97, Item 98}" "{Item 97, Item 98}"]
  show ?thesis by simp
qed

text \<open>C35: summing the groups does not depend on the iteration order of the first
  rucksacks when no group shares more than one item.\<close>

theorem sum_groups_order_independent:
  "list_all (\<lambda>(a, b, c). set (e1 a) = a \<and> set (e2 a) = a \<and> (a \<inter> b \<inter> c = {} \<or> (\<exists>x. a \<inter> b \<inter> c = {x}))) gs \<Longrightarrow>
     sum_groups e1 gs = sum_groups e2 gs"
proof (induction gs)
  case (Cons g gs)
  obtain a b c where g: "g = (a, b, c)" by (cases g)
  with Cons.prems have "group_value (e1 a) b c = group_value (e2 a) b c"
    by (auto simp: group_value_def find_common_unique find_common_none)
  with Cons g show ?case by simp
qed simp

theorem sum_groups_order_independent_witness:
  "sum_groups (\<lambda>_. [Item 97, Item 66]) [({Item 97, Item 66}, {Item 66}, {Item 66, Item 67})] =
   sum_groups (\<lambda>_. [Item 66, Item 97]) [({Item 97, Item 66}, {Item 66}, {Item 66, Item 67})]"
proof -
  have i: "{Item 97, Item 66} \<inter> {Item 66} \<inter> {Item 66, Item 67} = {Item 66}" by auto
  show ?thesis
    by (rule sum_groups_order_independent) (simp add: i insert_commute)
qed

text \<open>C36: \<open>solve_for_group\<close> returns a character exactly when the group has three lines
  and the third contains a character of both others; the result is the first such character
  of the third line. Fewer than three lines are an index panic.\<close>

theorem solve_for_group_spec:
  "solve_for_group g = Inr c \<longleftrightarrow>
     3 \<le> length g \<and> (\<exists>i < length (g ! 2). g ! 2 ! i = c \<and> c \<in> set (g ! 0) \<and> c \<in> set (g ! 1) \<and>
        (\<forall>j < i. g ! 2 ! j \<notin> set (g ! 0) \<inter> set (g ! 1)))"
  unfolding solve_for_group_find find_Some_iff by auto

theorem solve_for_group_spec_witness:
  "solve_for_group [''ab'', ''bc'', ''xbc''] = Inr CHR ''b''"
proof -
  have "3 \<le> length [''ab'', ''bc'', ''xbc'']" by simp
  moreover have "[''ab'', ''bc'', ''xbc''] ! 2 ! 1 = CHR ''b'' \<and> CHR ''b'' \<in> set ([''ab'', ''bc'', ''xbc''] ! 0) \<and>
    CHR ''b'' \<in> set ([''ab'', ''bc'', ''xbc''] ! 1) \<and>
    (\<forall>j < 1. [''ab'', ''bc'', ''xbc''] ! 2 ! j \<notin> set ([''ab'', ''bc'', ''xbc''] ! 0) \<inter> set ([''ab'', ''bc'', ''xbc''] ! 1))"
    by simp
  ultimately show ?thesis
    using solve_for_group_spec [of "[''ab'', ''bc'', ''xbc'']" "CHR ''b''"] by fastforce
qed

end
