(* ===== verification/Day06.thy ===== *)
theory Day06
  imports Prelude
begin

text \<open>
  Start-of-message marker of day 6 (\<open>src/day_06/src/main.rs\<close>). The input's characters
  are cut into the overlapping windows of 14 (\<open>slice::windows\<close>), \<open>all_different\<close>
  compares the size of a window's \<open>HashSet\<close> with its length, and \<open>position\<close> finds
  the first window that passes; the answer is that index plus 14. The lemmas show that
  \<open>all_different\<close> is \<open>distinct\<close>, that the windows are the slices
  \<open>take n (drop i xs)\<close>, and that the answer is the least end position of 14 distinct
  characters, or \<open>None\<close> when there is none (in particular on an input shorter than 14).
\<close>

text \<open>\<open>all_different\<close>: the size of the \<open>HashSet\<close> collected from a clone of the iterator
  against the iterator's \<open>count()\<close>.\<close>

definition all_different :: "'a list \<Rightarrow> bool" where
  "all_different xs \<longleftrightarrow> card (set xs) = length xs"

text \<open>\<open>slice::windows(n)\<close>: every slice of length \<open>n\<close>, from the left; none when the slice
  is shorter than \<open>n\<close>. The library panics for \<open>n = 0\<close>; \<open>main\<close> calls it with 14.\<close>

fun windows :: "nat \<Rightarrow> 'a list \<Rightarrow> 'a list list" where
  "windows n xs =
     (if length xs < n then [] else take n xs # (case xs of [] \<Rightarrow> [] | _ # ys \<Rightarrow> windows n ys))"

declare windows.simps [simp del]

text \<open>\<open>Iterator::position\<close>: the index of the first element satisfying the predicate.\<close>

fun position :: "('a \<Rightarrow> bool) \<Rightarrow> 'a list \<Rightarrow> nat option" where
  "position P [] = None"
| "position P (x # xs) = (if P x then Some 0 else map_option Suc (position P xs))"

definition day06_main :: "string \<Rightarrow> nat option" where
  "day06_main input = map_option (\<lambda>x. x + 14) (position all_different (windows 14 input))"

subsection \<open>Lemmas\<close>

lemma all_different_distinct [simp]: "all_different xs \<longleftrightarrow> distinct xs"
  by (auto simp: all_different_def distinct_card card_distinct)

lemma length_windows: "0 < n \<Longrightarrow> length (windows n xs) = length xs + 1 - n"
proof (induction xs)
  case Nil
  then show ?case by (simp add: windows.simps)
next
  case (Cons x xs)
  then show ?case by (subst windows.simps) auto
qed

lemma nth_windows:
  "0 < n \<Longrightarrow> i < length (windows n xs) \<Longrightarrow> windows n xs ! i = take n (drop i xs)"
proof (induction xs arbitrary: i)
  case Nil
  then show ?case by (simp add: windows.simps)
next
  case (Cons x xs)
  then show ?case
    by (cases i) (auto simp: windows.simps [of n "x # xs"] length_windows split: if_splits)
qed

lemma position_Some_iff:
  "position P xs = Some i \<longleftrightarrow> i < length xs \<and> P (xs ! i) \<and> (\<forall>j < i. \<not> P (xs ! j))"
proof (induction xs arbitrary: i)
  case (Cons x xs)
  then show ?case
    by (cases i) (auto simp: less_Suc_eq_0_disj)
qed simp

lemma day06_main_position:
  "day06_main s = Some p \<longleftrightarrow> 14 \<le> p \<and> position all_different (windows 14 s) = Some (p - 14)"
  by (auto simp: day06_main_def)

lemma shift_windows_below:
  "(\<forall>j < p - 14. \<not> distinct (take 14 (drop j s))) \<longleftrightarrow>
     (\<forall>q. 14 \<le> q \<and> q < p \<longrightarrow> \<not> distinct (take 14 (drop (q - 14) s)))"
proof
  assume h: "\<forall>j < p - 14. \<not> distinct (take 14 (drop j s))"
  show "\<forall>q. 14 \<le> q \<and> q < p \<longrightarrow> \<not> distinct (take 14 (drop (q - 14) s))"
  proof (intro allI impI)
    fix q assume "14 \<le> q \<and> q < p"
    then have "q - 14 < p - 14" by arith
    with h show "\<not> distinct (take 14 (drop (q - 14) s))" by blast
  qed
next
  assume h: "\<forall>q. 14 \<le> q \<and> q < p \<longrightarrow> \<not> distinct (take 14 (drop (q - 14) s))"
  show "\<forall>j < p - 14. \<not> distinct (take 14 (drop j s))"
  proof (intro allI impI)
    fix j assume "j < p - 14"
    with h [rule_format, of "j + 14"] show "\<not> distinct (take 14 (drop j s))" by simp
  qed
qed

text \<open>C37: the answer of \<open>main\<close> is \<open>p\<close> exactly when the 14 characters before position
  \<open>p\<close> are pairwise different and no earlier position has that property; so it is
  \<open>None\<close> when no 14 consecutive characters differ, and on every input shorter than 14.\<close>

theorem day06_main_spec:
  "day06_main s = Some p \<longleftrightarrow>
     14 \<le> p \<and> p \<le> length s \<and> distinct (take 14 (drop (p - 14) s)) \<and>
     (\<forall>q. 14 \<le> q \<and> q < p \<longrightarrow> \<not> distinct (take 14 (drop (q - 14) s)))"
proof -
  have w: "j < length (windows 14 s) \<Longrightarrow> windows 14 s ! j = take 14 (drop j s)" for j
    by (simp add: nth_windows)
  have "day06_main s = Some p \<longleftrightarrow>
      14 \<le> p \<and> p \<le> length s \<and> distinct (take 14 (drop (p - 14) s)) \<and>
      (\<forall>j < p - 14. \<not> distinct (take 14 (drop j s)))"
    unfolding day06_main_position position_Some_iff using w by (auto simp: length_windows)
  then show ?thesis by (simp only: shift_windows_below)
qed

theorem day06_main_spec_witness:
  "day06_main ''aabcdefghijklmn'' = Some 15"
proof -
  have "\<forall>q. 14 \<le> q \<and> q < (15::nat) \<longrightarrow> \<not> distinct (take 14 (drop (q - 14) ''aabcdefghijklmn''))"
  proof (intro allI impI)
    fix q :: nat assume "14 \<le> q \<and> q < 15"
    then have "q = 14" by arith
    then show "\<not> distinct (take 14 (drop (q - 14) ''aabcdefghijklmn''))" by simp
  qed
  then show ?thesis using day06_main_spec [of "''aabcdefghijklmn''" 15] by simp
qed

end
