(* ===== verification/Day01.thy ===== *)
theory Day01
  imports Prelude
begin

text \<open>
  Calorie counting of day 1 (\<open>src/day_01/src/main.rs\<close>). Every line is parsed with
  \<open>parse::<u64>().ok()\<close>, so a blank line is \<open>None\<close>; \<open>Itertools::batching\<close> calls the
  closure until it returns \<open>None\<close>, and the closure sums numbers while \<open>next()\<close> yields
  \<open>Some(Some(v))\<close>. The \<open>u64\<close> additions are checked as in a debug build, where an overflow
  panics (\<open>ArithOverflow\<close>). The batching loop is a \<open>function\<close> whose termination follows
  from the closure consuming at least one line whenever it returns a block. The lemmas show
  that well-formed input (non-empty blocks separated by one blank line) yields the block sums,
  that a blank line where a block should start ends the batching and drops the rest of the
  input, and that the answer is the sum of the three largest block sums.
\<close>

text \<open>The \<open>while let Some(Some(v)) = iter.next()\<close> loop of the closure, from the current
  \<open>block_sum\<close>; it returns the block's sum and the unconsumed items.\<close>

fun block_loop :: "u64 option \<Rightarrow> u64 option list \<Rightarrow> rs_error + (u64 option \<times> u64 option list)" where
  "block_loop block_sum (Some v # rest) =
     (let s = (case block_sum of None \<Rightarrow> 0 | Some a \<Rightarrow> a) + v
      in if 2 ^ 64 \<le> s then Inl ArithOverflow else block_loop (Some s) rest)"
| "block_loop block_sum (None # rest) = Inr (block_sum, rest)"
| "block_loop block_sum [] = Inr (block_sum, [])"

lemma block_loop_consumes:
  "block_loop acc xs = Inr (r, rest) \<Longrightarrow> length rest < length xs \<or> (xs = [] \<and> rest = [] \<and> r = acc)"
  by (induction acc xs rule: block_loop.induct) (auto simp: Let_def split: if_splits)

text \<open>\<open>Itertools::batching\<close> with that closure (\<open>block_sum\<close> starts at \<open>None\<close>).\<close>

function batch_all :: "u64 option list \<Rightarrow> rs_error + u64 list" where
  "batch_all items =
     (case block_loop None items of
        Inl e \<Rightarrow> Inl e
      | Inr (None, _) \<Rightarrow> Inr []
      | Inr (Some s, rest) \<Rightarrow> rs_bind (batch_all rest) (\<lambda>ss. Inr (s # ss)))"
  by pat_completeness auto

termination
  by (relation "measure length") (auto dest: block_loop_consumes)

declare batch_all.simps [simp del]

text \<open>\<open>Iterator::sum\<close> over \<open>u64\<close>, an overflow panicking.\<close>

fun checked_sum :: "u64 \<Rightarrow> u64 list \<Rightarrow> rs_error + u64" where
  "checked_sum acc [] = Inr acc"
| "checked_sum acc (x # xs) = (if 2 ^ 64 \<le> acc + x then Inl ArithOverflow else checked_sum (acc + x) xs)"

text \<open>\<open>main\<close>: the block sums, \<open>sorted().rev().take(3).sum()\<close>.\<close>

definition day01_main :: "string \<Rightarrow> rs_error + u64" where
  "day01_main input =
     rs_bind (batch_all (map parse_u64 (rs_lines input)))
       (\<lambda>sums. checked_sum 0 (take 3 (rev (sort sums))))"

text \<open>The input of well-formed blocks: one number a line, a blank line between blocks.\<close>

fun block_items :: "u64 list list \<Rightarrow> u64 option list" where
  "block_items [] = []"
| "block_items [b] = map Some b"
| "block_items (b # bs) = map Some b @ None # block_items bs"

fun elf_lines :: "u64 list list \<Rightarrow> string list" where
  "elf_lines [] = []"
| "elf_lines [b] = map show_nat b"
| "elf_lines (b # bs) = map show_nat b @ [] # elf_lines bs"

definition elf_input :: "u64 list list \<Rightarrow> string" where
  "elf_input bs = unlines (elf_lines bs)"

subsection \<open>Lemmas\<close>

lemma block_loop_block:
  "(case acc of None \<Rightarrow> 0 | Some a \<Rightarrow> a) + sum_list b < 2 ^ 64 \<Longrightarrow>
     block_loop acc (map Some b @ rest) =
       block_loop (if b = [] then acc else Some ((case acc of None \<Rightarrow> 0 | Some a \<Rightarrow> a) + sum_list b)) rest"
proof (induction b arbitrary: acc)
  case (Cons v b)
  then have "(case acc of None \<Rightarrow> 0 | Some a \<Rightarrow> a) + v < 2 ^ 64" by simp
  with Cons.prems Cons.IH [of "Some ((case acc of None \<Rightarrow> 0 | Some a \<Rightarrow> a) + v)"] show ?case
    by (simp add: add.assoc Let_def)
qed simp

lemma batch_all_Nil [simp]: "batch_all [] = Inr []"
  by (simp add: batch_all.simps)

lemma batch_all_None [simp]: "batch_all (None # rest) = Inr []"
  by (simp add: batch_all.simps)

lemma batch_all_block:
  "b \<noteq> [] \<Longrightarrow> sum_list b < 2 ^ 64 \<Longrightarrow>
     batch_all (map Some b @ rest) =
       (case block_loop (Some (sum_list b)) rest of
          Inl e \<Rightarrow> Inl e
        | Inr (None, _) \<Rightarrow> Inr []
        | Inr (Some s, rest') \<Rightarrow> rs_bind (batch_all rest') (\<lambda>ss. Inr (s # ss)))"
  by (subst batch_all.simps) (simp add: block_loop_block)

lemma checked_sum_ok: "acc + sum_list xs < 2 ^ 64 \<Longrightarrow> checked_sum acc xs = Inr (acc + sum_list xs)"
  by (induction xs arbitrary: acc) (simp_all add: add.assoc)

lemma sum_list_le_of_sum_list_concat:
  "(b :: nat list) \<in> set bs \<Longrightarrow> sum_list b \<le> sum_list (map sum_list bs)"
  by (induction bs) (auto simp: trans_le_add2)

lemma parse_u64_Nil [simp]: "parse_u64 [] = None"
  by (simp add: parse_u64_def)

lemma plain_line_show_nat [simp]: "plain_line (show_nat n)"
proof -
  have "\<not> is_digit nl" "\<not> is_digit cr" by (simp_all add: is_digit_def nl_def cr_def)
  then show ?thesis
    using not_digit_show_nat [of nl n] show_nat_digits [of "last (show_nat n)" n]
    by (auto simp: plain_line_def)
qed

lemma plain_line_Nil [simp]: "plain_line []"
  by (simp add: plain_line_def)

lemma rs_lines_elf_input: "rs_lines (elf_input bs) = elf_lines bs"
proof -
  have "\<forall>l\<in>set (elf_lines bs). plain_line l"
    by (induction bs rule: elf_lines.induct) auto
  then show ?thesis by (simp add: elf_input_def rs_lines_unlines)
qed

lemma parse_elf_lines:
  "\<forall>b\<in>set bs. \<forall>v\<in>set b. v < 2 ^ 64 \<Longrightarrow> map parse_u64 (elf_lines bs) = block_items bs"
  by (induction bs rule: elf_lines.induct) (simp_all add: parse_u64_show_nat)

lemma batch_all_block_items:
  "list_all (\<lambda>b. b \<noteq> [] \<and> sum_list b < 2 ^ 64) bs \<Longrightarrow> batch_all (block_items bs) = Inr (map sum_list bs)"
proof (induction bs rule: block_items.induct)
  case (2 b)
  then show ?case using batch_all_block [of b "[]"] by simp
next
  case (3 b c bs)
  then show ?case using batch_all_block [of b "None # block_items (c # bs)"] by simp
qed simp

lemma top_three:
  fixes xs :: "nat list"
  defines "t \<equiv> take 3 (rev (sort xs))"
  shows "mset t \<subseteq># mset xs \<and> length t = min 3 (length xs) \<and>
    (\<forall>x\<in>#mset xs - mset t. \<forall>y\<in>set t. x \<le> y)"
proof -
  define r where "r = drop 3 (rev (sort xs))"
  have split: "rev (sort xs) = t @ r" by (simp add: t_def r_def)
  then have m: "mset xs = mset t + mset r"
    by (metis mset_append mset_rev mset_sort)
  have "sorted_wrt (\<ge>) (rev (sort xs))" by (simp add: sorted_wrt_rev)
  then have "\<forall>y\<in>set t. \<forall>x\<in>set r. x \<le> y" by (simp add: split sorted_wrt_append)
  with m show ?thesis by (simp add: t_def)
qed

lemma elf_input_ok:
  assumes "list_all (\<lambda>b. b \<noteq> []) bs" and "sum_list (map sum_list bs) < 2 ^ 64"
  shows "day01_main (elf_input bs) = checked_sum 0 (take 3 (rev (sort (map sum_list bs))))"
proof -
  have "\<forall>b\<in>set bs. sum_list b < 2 ^ 64"
    using assms(2) sum_list_le_of_sum_list_concat le_less_trans by blast
  moreover have "\<forall>b\<in>set bs. \<forall>v\<in>set b. v < 2 ^ 64"
    using calculation member_le_sum_list le_less_trans by blast
  ultimately show ?thesis using assms(1)
    by (simp add: day01_main_def rs_lines_elf_input parse_elf_lines batch_all_block_items list_all_iff)
qed

text \<open>C38: on well-formed input (non-empty blocks, a blank line between two blocks, all sums
  within \<open>u64\<close>) the batching yields exactly the blocks' sums, in order.\<close>

theorem batch_all_blocks:
  "list_all (\<lambda>b. b \<noteq> [] \<and> sum_list b < 2 ^ 64) bs \<Longrightarrow> batch_all (block_items bs) = Inr (map sum_list bs)"
  by (rule batch_all_block_items)

theorem batch_all_blocks_witness:
  "batch_all (block_items [[1000, 2000], [4000], [5000, 6000]]) = Inr [3000, 4000, 11000]"
  using batch_all_blocks [of "[[1000, 2000], [4000], [5000, 6000]]"] by simp

text \<open>C39: a blank line where a block should start makes the closure return \<open>None\<close>, which
  ends \<open>batching\<close>: input that starts with a blank line gives no block, and after two
  consecutive blank lines every later block is silently dropped.\<close>

theorem batch_all_truncates:
  "b \<noteq> [] \<Longrightarrow> sum_list b < 2 ^ 64 \<Longrightarrow>
     batch_all (None # rest) = Inr [] \<and> batch_all (map Some b @ None # None # rest) = Inr [sum_list b]"
  by (simp add: batch_all_block)

theorem batch_all_truncates_witness:
  "batch_all (None # [Some 7]) = Inr [] \<and> batch_all (map Some [1, 2] @ None # None # [Some 7]) = Inr [3]"
  using batch_all_truncates [of "[1, 2]" "[Some 7]"] by simp

text \<open>C40: on well-formed input whose calories fit in \<open>u64\<close>, \<open>main\<close> answers the sum of
  the three largest block sums: a sub-multiset of the block sums, of size three (or all of
  them when there are fewer), no other block sum exceeding any of them.\<close>

theorem day01_main_top_three:
  "list_all (\<lambda>b. b \<noteq> []) bs \<Longrightarrow> sum_list (map sum_list bs) < 2 ^ 64 \<Longrightarrow>
     \<exists>top. day01_main (elf_input bs) = Inr (sum_list top) \<and> mset top \<subseteq># mset (map sum_list bs) \<and>
       length top = min 3 (length bs) \<and> (\<forall>x\<in>#mset (map sum_list bs) - mset top. \<forall>y\<in>set top. x \<le> y)"
proof -
  assume ne: "list_all (\<lambda>b. b \<noteq> []) bs" and bound: "sum_list (map sum_list bs) < 2 ^ 64"
  define top where "top = take 3 (rev (sort (map sum_list bs)))"
  have t: "mset top \<subseteq># mset (map sum_list bs) \<and> length top = min 3 (length bs) \<and>
      (\<forall>x\<in>#mset (map sum_list bs) - mset top. \<forall>y\<in>set top. x \<le> y)"
    using top_three [of "map sum_list bs"] by (simp add: top_def)
  then have "sum_list top \<le> sum_list (map sum_list bs)"
    by (metis mset_subset_eq_exists_conv sum_mset_sum_list le_add1 sum_mset.union)
  with bound have "checked_sum 0 top = Inr (sum_list top)" by (simp add: checked_sum_ok)
  with elf_input_ok [OF ne bound] t show ?thesis by (auto simp: top_def)
qed

theorem day01_main_top_three_witness:
  "\<exists>top. day01_main (elf_input [[1000, 2000], [4000], [5000, 6000], [7000, 8000, 9000], [10000]]) =
     Inr (sum_list top) \<and> length top = 3"
  using day01_main_top_three [of "[[1000, 2000], [4000], [5000, 6000], [7000, 8000, 9000], [10000]]"]
  by fastforce

text \<open>C18: the batching loop terminates on every input: whenever the closure returns a block
  it has consumed at least one line, which is the measure of \<open>batch_all\<close>'s termination
  proof.\<close>

theorem block_loop_progress:
  "block_loop None items = Inr (Some s, rest) \<Longrightarrow> length rest < length items"
  using block_loop_consumes [of None items "Some s" rest] by auto

theorem block_loop_progress_witness:
  "block_loop None [Some 1, Some 2, None, Some 3] = Inr (Some 3, [Some 3]) \<and>
   length [Some (3::nat)] < length [Some 1, Some 2, None, Some (3::nat)]"
proof -
  have b: "block_loop None [Some 1, Some 2, None, Some 3] = Inr (Some 3, [Some 3])" by simp
  from b block_loop_progress [OF b] show ?thesis by simp
qed

end
