(* ===== verification/Spec2Isabelle.thy ===== *)
theory Spec2Isabelle
  imports Day05_Grid Day05_Stacks Day02 Day04 Day03 Day06 Day01
begin

text \<open>
  \<^bold>\<open>A verification library for the Advent of Code 2022 solvers (days 1 to 6).\<close>

  The repository is six independent Rust programs, \<open>src/day_NN/src/main.rs\<close>. Each reads an
  embedded text file, parses it into a small domain model and folds it into one answer.
  They share no state; the only interaction is each program with the Rust standard
  library (string splitting, number parsing, collections), \<open>itertools\<close> and, for day 5,
  the \<open>nom\<close> parser combinators. This development is a shallow embedding of them: every
  panic, \<open>unwrap\<close> on \<open>None\<close>, out-of-range index and propagated \<open>Err\<close> is a value
  \<open>Inl e\<close> of \<open>rs_error + 'a\<close>, sequenced with \<open>rs_bind\<close> (Rust's \<open>?\<close>).

  \<^bold>\<open>Layout.\<close>
  \<^item> \<open>Prelude\<close>: \<open>rs_error\<close>, \<open>rs_bind\<close>, and the library routines the solvers call,
    modelled from their documentation: \<open>str::lines\<close> (\<open>rs_lines\<close>), \<open>str::split\<close>
    (\<open>split_on\<close>, \<open>split_on_pair\<close>), \<open>split_whitespace\<close>, \<open>parse::<u64>\<close> and
    \<open>parse::<u32>\<close> (\<open>parse_u64\<close>, \<open>parse_u32\<close>: optional \<open>+\<close>, decimal digits, below
    \<open>2^64\<close> / \<open>2^32\<close>), \<open>char::is_alphabetic\<close> on ASCII, \<open>collect_tuple\<close>, \<open>nth\<close>, and
    \<open>nom\<close>'s \<open>tag\<close> and \<open>take(1)\<close> as parsers \<open>string \<Rightarrow> ('a \<times> string) option\<close>;
    with printers (\<open>unlines\<close>, \<open>show_nat\<close>) and their round trips.
  \<^item> \<open>Day05_Grid\<close>: the \<open>nom\<close> crate-row parser of day 5 and the binary's top-level
    \<open>main\<close>, which keeps the rows \<open>all_consuming\<close> accepts. \<open>crate_line_loop\<close> is the
    \<open>loop\<close> of \<open>parse_crate_line\<close>, a \<open>function\<close> terminating because every slot consumes
    input. Lemmas: round trip with the printer \<open>render_row\<close> (C3) and its converse (C4).
  \<^item> \<open>Day05_Stacks\<close>: \<open>mod my_solution\<close> of day 5. \<open>Move\<close> and \<open>State\<close> are records
    (\<open>stacks\<close> a list of \<open>VecDeque\<close>s as lists, back = end); \<open>perform_move\<close> and
    \<open>perform_batch_move\<close> are loops of \<open>pop_back_at\<close>/\<open>push_back_at\<close>, the drawing
    loader \<open>load_chars\<close> keeps the code's four counters, \<open>day05_main\<close> is the whole
    \<open>main\<close> with \<open>number_stacks = 9\<close>. Lemmas: closed forms against the abstract
    \<open>move_block\<close> (C1, C2), abort conditions (C5, C7), agreement of the two cranes on one
    crate (C6), the same-stack case (C8), conservation of the multiset of crates (C9, C10),
    the loader as a refinement of the cell-indexed \<open>add_cells\<close> (C11), the instruction
    parser (C12, C13), the answer (C14, C15), and the panic on every drawing with fewer
    than nine crates, the puzzle's 3-stack example among them (C16).
  \<^item> \<open>Day02\<close>: rock paper scissors: the datatypes \<open>rps_move\<close>, \<open>outcome\<close>, the record
    \<open>round\<close>, the two \<open>find(..).unwrap()\<close> searches, \<open>Round::from_str\<close> and the
    \<open>process_results\<close> sum. Lemmas C17, C19 to C23.
  \<^item> \<open>Day04\<close>: both implementations of the file: \<open>Range\<close>/\<open>Assignment\<close> with
    \<open>from_str\<close>, \<open>is_contained\<close>, \<open>overlap\<close> and the count of \<open>mine()\<close>, and
    \<open>main\<close>'s \<open>RangeInclusive\<close> extension trait. Lemmas C24 to C30: both against the
    interval semantics \<open>sections\<close>, their agreement on printed input, and that they
    differ only on reversed ranges, where \<open>main\<close>'s test is the wrong one (C27).
  \<^item> \<open>Day03\<close>: \<open>Item\<close> over an \<open>8 word\<close> (\<open>u8\<close> arithmetic), \<open>priority\<close>, the
    rucksack sets, \<open>tuples3\<close> and the badge search with the \<open>HashSet\<close> iteration order as
    a parameter \<open>enum\<close>, and \<open>solve_for_group\<close>. Lemmas C31 to C36.
  \<^item> \<open>Day06\<close>: \<open>all_different\<close>, \<open>slice::windows\<close>, \<open>Iterator::position\<close> and
    \<open>main\<close>; C37 characterises the answer as the least end of 14 distinct characters.
  \<^item> \<open>Day01\<close>: the batching closure \<open>block_loop\<close>, \<open>Itertools::batching\<close> as the
    \<open>function\<close> \<open>batch_all\<close> (terminating by the measure \<open>length\<close>, C18), and
    \<open>sorted().rev().take(3).sum()\<close>. Lemmas: the block sums of well-formed input (C38),
    truncation at a blank line (C39), the answer as the three largest sums (C40).

  \<^bold>\<open>Bounds.\<close> Rust's \<open>u64\<close> and \<open>u32\<close> are \<open>nat\<close> with the bound checked where the code
  can exceed it: \<open>parse_u64\<close> rejects values from \<open>2^64\<close> on, and day 1's additions are
  checked against \<open>2^64\<close> and panic (\<open>ArithOverflow\<close>) as in a debug build. Day 3's
  \<open>u8\<close> subtraction is \<open>8 word\<close> subtraction; C31 shows it never wraps. Day 2's total is
  at most nine a line (C23) and day 4's count at most one a line, so neither overflows on
  an input of fewer than \<open>2^64 / 9\<close> lines. No model
  needs fuel: every loop is structural recursion or a \<open>function\<close> with a measure.

  \<^bold>\<open>Not modelled.\<close> Reading the embedded input (\<open>include_str!\<close>) and printing
  (\<open>println!\<close>, \<open>dbg!\<close>, \<open>color_eyre\<close> reports) are I/O: each \<open>main\<close> is modelled as
  a function from the input text to its answer or error. The standard library, \<open>nom\<close> and
  \<open>itertools\<close> are modelled from their documented behaviour, only for the calls the
  solvers make. Hash order is not modelled as a fixed function but left as a parameter
  (day 3), since the program's answer depends on it. UTF-8 is not modelled: strings are
  lists of 8-bit characters, which is exact for the ASCII inputs.
\<close>

end
